theory Spec2Isabelle
  imports Main "HOL-Library.Sublist" "HOL-Library.FSet" "HOL-Library.List_Lexorder"
begin

section \<open>Strings and lines\<close>

text \<open>
  A Python \<^verbatim>\<open>str\<close> is a sequence of Unicode code points; a code point is a natural
  number here, so that texts outside ASCII are covered. \<open>str\<close> turns an ASCII literal
  into such a sequence.
\<close>

type_synonym pystr = "nat list"

definition str :: "string \<Rightarrow> pystr" where
  "str s = map of_char s"

text \<open>
  The characters \<^verbatim>\<open>str.strip()\<close> removes: tab to carriage return, the four
  separators U+001C..U+001F, space, U+0085, U+00A0, U+1680, U+2000..U+200A, U+2028,
  U+2029, U+202F, U+205F and U+3000.
\<close>

definition isspace :: "nat \<Rightarrow> bool" where
  "isspace c =
     (c \<in> {9, 10, 11, 12, 13, 28, 29, 30, 31, 32, 133, 160, 5760}
      \<or> (8192 \<le> c \<and> c \<le> 8202)
      \<or> c \<in> {8232, 8233, 8239, 8287, 12288})"

definition strip :: "pystr \<Rightarrow> pystr" where
  "strip s = rev (dropWhile isspace (rev (dropWhile isspace s)))"

text \<open>\<^verbatim>\<open>s.startswith(p)\<close>: the first \<open>len(p)\<close> characters of \<open>s\<close> are \<open>p\<close>.\<close>

definition startswith :: "pystr \<Rightarrow> pystr \<Rightarrow> bool" where
  "startswith s p = (take (length p) s = p)"

text \<open>
  The input file is opened in text mode with the default \<^verbatim>\<open>newline=None\<close>: a carriage
  return followed by a line feed, and a carriage return alone, are read as one line feed
  (code point 10; carriage return is 13). Iterating over the file then yields the lines,
  each with its line feed, and a last line without one when the text does not end in a
  line feed.
\<close>

fun translate_newlines :: "pystr \<Rightarrow> pystr" where
  "translate_newlines [] = []"
| "translate_newlines [c] = [if c = 13 then 10 else c]"
| "translate_newlines (c # d # cs) =
     (if c = 13 \<and> d = 10 then 10 # translate_newlines cs
      else if c = 13 then 10 # translate_newlines (d # cs)
      else c # translate_newlines (d # cs))"

fun readlines :: "pystr \<Rightarrow> pystr list" where
  "readlines [] = []"
| "readlines (c # cs) =
     (if c = 10 then [c] # readlines cs
      else (case readlines cs of [] \<Rightarrow> [[c]] | l # ls \<Rightarrow> (c # l) # ls))"

definition file_lines :: "pystr \<Rightarrow> pystr list" where
  "file_lines text = readlines (translate_newlines text)"

section \<open>utils/validators.py\<close>

definition validate_url :: "pystr \<Rightarrow> bool" where
  "validate_url url =
     list_ex (startswith url) [str ''http://'', str ''https://'', str ''www.'']"

section \<open>Console output\<close>

text \<open>
  Every \<^verbatim>\<open>click.echo\<close> of cli/batch.py is a constructor that carries the values the
  message interpolates; the decoration of the text is left out. The run's duration,
  read from the clock, is not carried.
\<close>

datatype message =
    Skipping_invalid_url nat pystr
  | Error_reading_file pystr
  | Skipping_already_processed nat nat pystr
  | Separator
  | Processing_url nat nat nat
  | Url_is pystr
  | Checking_existing
  | Download_successful
  | Download_failed
  | Interrupted_by_user
  | Progress_saved nat
  | Unexpected_error pystr
  | Banner
  | Cleared_resume_data
  | Reading_urls
  | No_valid_urls
  | Found_urls nat
  | Skipping_count nat
  | Settings pystr pystr pystr bool bool bool bool
  | Starting
  | Summary_header
  | Total_urls nat
  | Successful nat
  | Failed nat
  | Duration
  | Failed_urls_header
  | Failed_line nat pystr
  | Failed_error pystr
  | Report_saved
  | Could_not_save_report pystr

section \<open>cli/batch.py: reading the URL list\<close>

text \<open>
  The input file either cannot be read (\<^verbatim>\<open>IOError\<close>, with its message) or holds a text.
  A file that is not UTF-8 raises \<^verbatim>\<open>UnicodeDecodeError\<close>, which nothing catches: it ends
  the process before anything is processed and is left out.
\<close>

datatype input_file = Cannot_read pystr | Text pystr

text \<open>
  The loop of \<open>read_urls_from_file\<close> over \<^verbatim>\<open>enumerate(f, 1)\<close>: \<open>line_num\<close> is the number
  of the line at the head of the list, \<open>urls\<close> the list built by \<^verbatim>\<open>urls.append\<close>,
  \<open>out\<close> the messages echoed so far. Code point 35 is the comment marker.
\<close>

fun read_loop ::
  "nat \<Rightarrow> pystr list \<Rightarrow> (nat \<times> pystr) list \<times> message list
     \<Rightarrow> (nat \<times> pystr) list \<times> message list" where
  "read_loop line_num [] acc = acc"
| "read_loop line_num (raw # rest) (urls, out) =
     (let line = strip raw in
      if line = [] \<or> startswith line (str ''#'')
      then read_loop (Suc line_num) rest (urls, out)
      else if validate_url line
      then read_loop (Suc line_num) rest (urls @ [(line_num, line)], out)
      else read_loop (Suc line_num) rest
             (urls, out @ [Skipping_invalid_url line_num line]))"

text \<open>
  \<open>read_urls_from_file\<close> returns the list, or leaves the process with status 1 when the
  file cannot be read (\<open>Inl\<close> the exit status); the second component is what it echoed.
\<close>

definition read_urls_from_file ::
  "input_file \<Rightarrow> (nat + (nat \<times> pystr) list) \<times> message list" where
  "read_urls_from_file f =
     (case f of
        Cannot_read e \<Rightarrow> (Inl 1, [Error_reading_file e])
      | Text text \<Rightarrow>
          (let (urls, out) = read_loop 1 (file_lines text) ([], [])
           in (Inr urls, out)))"

section \<open>The resume state and its file\<close>

text \<open>What \<open>failed_urls\<close> holds for a URL: the dictionary with the keys
  \<^verbatim>\<open>'line'\<close>, \<^verbatim>\<open>'error'\<close> and \<^verbatim>\<open>'timestamp'\<close>.\<close>

record fail_info =
  line :: nat
  error :: pystr
  timestamp :: pystr

text \<open>
  A Python \<^verbatim>\<open>dict\<close> keeps its keys in insertion order: it is an association list, and
  \<^verbatim>\<open>d[k] = v\<close> replaces the value of a key that is present, in place, and appends a
  key that is not.
\<close>

type_synonym failed_map = "(pystr \<times> fail_info) list"

fun setitem :: "('k \<times> 'v) list \<Rightarrow> 'k \<Rightarrow> 'v \<Rightarrow> ('k \<times> 'v) list" where
  "setitem [] k v = [(k, v)]"
| "setitem ((k', v') # d) k v =
     (if k' = k then (k, v) # d else (k', v') # setitem d k v)"

text \<open>
  The JSON object of the resume file, as \<^verbatim>\<open>json.load\<close> returns it: the three fields
  \<open>save_resume_data\<close> writes, each of which may be missing (\<^verbatim>\<open>data.get\<close> then takes
  the default). The file itself is absent, or exists and cannot be opened
  (\<^verbatim>\<open>IOError\<close>), or holds text that is not JSON (\<^verbatim>\<open>JSONDecodeError\<close>), or holds
  such an object. The fields have the types \<open>save_resume_data\<close> gives them; JSON of
  another shape, which the program never writes, is left out.
\<close>

record resume_doc =
  doc_processed :: "pystr list option"
  doc_failed :: "failed_map option"
  doc_last_updated :: "pystr option"

datatype resume_content = No_file | Unreadable | Not_json | Json resume_doc

text \<open>
  What a write of the resume file does: it succeeds; or creating the directory or opening
  the file raises \<^verbatim>\<open>IOError\<close> and the file stays as it was; or the file is opened,
  which truncates it, and writing raises \<^verbatim>\<open>IOError\<close>, which leaves text that is not
  JSON.
\<close>

datatype write_outcome = Written | Open_fails | Write_fails

section \<open>core/downloader.py\<close>

text \<open>The keyword arguments of one call of \<open>download_audio\<close>.\<close>

record call =
  call_url :: pystr
  call_output_dir :: pystr
  call_quality :: pystr
  call_format :: pystr
  call_keep_video :: bool
  call_playlist :: bool
  call_verbose :: bool
  call_filename_template :: "pystr option"

text \<open>
  \<open>YouTubeDownloader.download\<close> first creates the output directory and builds the
  options, outside any \<^verbatim>\<open>try\<close>: this goes through, or raises an exception with a
  message (\<^verbatim>\<open>mkdir\<close>), or is hit by the interrupt signal. Then, inside the \<^verbatim>\<open>try\<close>,
  yt-dlp fetches the information and downloads: it finishes, or raises
  \<^verbatim>\<open>DownloadError\<close>, or is hit by the interrupt signal, or raises another exception.
  What yt-dlp and the file system do is the environment's choice. The three handlers
  only print and return \<^verbatim>\<open>False\<close>; what \<open>download\<close> prints is left out.
\<close>

datatype setup_outcome = Setup_ok | Setup_raises pystr | Setup_interrupted

datatype ydl_outcome = Ydl_done | Ydl_download_error pystr | Ydl_interrupted | Ydl_exception pystr

datatype call_result = Returns bool | Raises_Exception pystr | Raises_KeyboardInterrupt

definition download :: "setup_outcome \<Rightarrow> ydl_outcome \<Rightarrow> call \<Rightarrow> call_result" where
  "download su yd c =
     (case su of
        Setup_raises e \<Rightarrow> Raises_Exception e
      | Setup_interrupted \<Rightarrow> Raises_KeyboardInterrupt
      | Setup_ok \<Rightarrow>
          (case yd of
             Ydl_done \<Rightarrow> Returns True
           | Ydl_download_error e \<Rightarrow> Returns False
           | Ydl_interrupted \<Rightarrow> Returns False
           | Ydl_exception e \<Rightarrow> Returns False))"

definition download_audio :: "setup_outcome \<Rightarrow> ydl_outcome \<Rightarrow> call \<Rightarrow> call_result" where
  "download_audio su yd c = download su yd c"

section \<open>cli/batch.py: the batch processor\<close>

text \<open>
  The processor object together with the part of the world it acts on: the content of
  the file at \<open>resume_file\<close>, the calls of the collaborator made so far and the messages
  echoed so far.
\<close>

record batch =
  processed_urls :: "pystr fset"
  failed_urls :: failed_map
  resume_file :: resume_content
  invoked :: "call list"
  echoed :: "message list"

definition echo :: "message list \<Rightarrow> 'a batch_scheme \<Rightarrow> 'a batch_scheme" where
  "echo ms b = b\<lparr>echoed := echoed b @ ms\<rparr>"

definition load_resume_data :: "'a batch_scheme \<Rightarrow> 'a batch_scheme" where
  "load_resume_data b =
     (case resume_file b of
        No_file \<Rightarrow> b
      | Unreadable \<Rightarrow> b
      | Not_json \<Rightarrow> b
      | Json data \<Rightarrow>
          b\<lparr>processed_urls :=
              fset_of_list (case doc_processed data of None \<Rightarrow> [] | Some xs \<Rightarrow> xs),
            failed_urls := (case doc_failed data of None \<Rightarrow> [] | Some d \<Rightarrow> d)\<rparr>)"

text \<open>
  \<open>save_resume_data\<close>, given what the write does and the clock's reading for
  \<^verbatim>\<open>last_updated\<close>. \<^verbatim>\<open>list(self.processed_urls)\<close> lists the set in an order Python
  does not specify; the model lists it in increasing order.
\<close>

definition save_resume_data :: "write_outcome \<Rightarrow> pystr \<Rightarrow> 'a batch_scheme \<Rightarrow> 'a batch_scheme" where
  "save_resume_data w clock b =
     (case w of
        Written \<Rightarrow>
          b\<lparr>resume_file := Json \<lparr>doc_processed = Some (sorted_list_of_fset (processed_urls b)),
                                  doc_failed = Some (failed_urls b),
                                  doc_last_updated = Some clock\<rparr>\<rparr>
      | Open_fails \<Rightarrow> b
      | Write_fails \<Rightarrow> b\<lparr>resume_file := Not_json\<rparr>)"

text \<open>The constructor: an empty state, then \<open>load_resume_data\<close>.\<close>

definition BatchProcessor :: "resume_content \<Rightarrow> batch" where
  "BatchProcessor disk =
     load_resume_data
       \<lparr>processed_urls = {||}, failed_urls = [], resume_file = disk, invoked = [], echoed = []\<rparr>"

text \<open>The parameters of \<open>process_urls\<close> other than the list.\<close>

record options =
  output_dir :: pystr
  quality :: pystr
  format :: pystr
  keep_video :: bool
  playlist :: bool
  verbose :: bool
  skip_existing :: bool
  resume :: bool

text \<open>
  What the environment does while one entry is processed: the two phases of the
  collaborator's call, the clock's reading when a failure is recorded, what the write of
  the resume file does and the clock's reading for it.
\<close>

record step_env =
  setup_does :: setup_outcome
  ydl_does :: ydl_outcome
  now :: pystr
  write_does :: write_outcome
  save_now :: pystr

text \<open>
  The locals of \<open>process_urls\<close> beside the processor: the two counters, and whether the
  loop was left by \<^verbatim>\<open>break\<close>.
\<close>

record run = batch +
  success_count :: nat
  failed_count :: nat
  interrupted :: bool

text \<open>The call \<open>process_urls\<close> makes for a URL.\<close>

definition call_of :: "options \<Rightarrow> pystr \<Rightarrow> call" where
  "call_of opts url =
     \<lparr>call_url = url, call_output_dir = output_dir opts,
      call_quality = quality opts, call_format = format opts,
      call_keep_video = keep_video opts, call_playlist = playlist opts,
      call_verbose = verbose opts, call_filename_template = None\<rparr>"

text \<open>
  The body of the loop for the entry \<open>(line_num, url)\<close> at index \<open>idx\<close>. The interrupt
  signal is taken to arrive where the loop waits, during the collaborator's call.
\<close>

definition process_entry :: "options \<Rightarrow> step_env \<Rightarrow> nat \<Rightarrow> nat \<Rightarrow> nat \<times> pystr \<Rightarrow> run \<Rightarrow> run" where
  "process_entry opts ev total_urls idx entry s =
     (case entry of (line_num, url) \<Rightarrow>
        if resume opts \<and> url |\<in>| processed_urls s
        then (echo [Skipping_already_processed idx total_urls url] s)
               \<lparr>success_count := success_count s + 1\<rparr>
        else
          (let s1 = echo [Separator, Processing_url idx total_urls line_num, Url_is url] s;
               s2 = (if skip_existing opts then echo [Checking_existing] s1 else s1);
               c = call_of opts url;
               s3 = s2\<lparr>invoked := invoked s2 @ [c]\<rparr>
           in case download_audio (setup_does ev) (ydl_does ev) c of
                Returns success \<Rightarrow>
                  (let s4 =
                         (if success
                          then echo [Download_successful]
                                 (s3\<lparr>success_count := success_count s3 + 1,
                                     processed_urls := finsert url (processed_urls s3)\<rparr>)
                          else echo [Download_failed]
                                 (s3\<lparr>failed_count := failed_count s3 + 1,
                                     failed_urls := setitem (failed_urls s3) url
                                       \<lparr>line = line_num, error = str ''Download failed'',
                                        timestamp = now ev\<rparr>\<rparr>))
                   in if resume opts then save_resume_data (write_does ev) (save_now ev) s4 else s4)
              | Raises_KeyboardInterrupt \<Rightarrow>
                  (let s4 = echo [Interrupted_by_user] s3;
                       s5 = (if resume opts
                             then echo [Progress_saved idx]
                                    (save_resume_data (write_does ev) (save_now ev) s4)
                             else s4)
                   in s5\<lparr>interrupted := True\<rparr>)
              | Raises_Exception e \<Rightarrow>
                  (let s4 = echo [Unexpected_error e]
                              (s3\<lparr>failed_count := failed_count s3 + 1,
                                  failed_urls := setitem (failed_urls s3) url
                                    \<lparr>line = line_num, error = e, timestamp = now ev\<rparr>\<rparr>)
                   in if resume opts then save_resume_data (write_does ev) (save_now ev) s4 else s4)))"

text \<open>
  The loop over \<^verbatim>\<open>enumerate(urls, 1)\<close>; \<open>env idx\<close> is what the environment does at
  index \<open>idx\<close>. A \<^verbatim>\<open>break\<close> leaves the remaining entries alone.
\<close>

fun process_loop ::
  "options \<Rightarrow> (nat \<Rightarrow> step_env) \<Rightarrow> nat \<Rightarrow> nat \<Rightarrow> (nat \<times> pystr) list \<Rightarrow> run \<Rightarrow> run" where
  "process_loop opts env total_urls idx [] s = s"
| "process_loop opts env total_urls idx (entry # rest) s =
     (let s' = process_entry opts (env idx) total_urls idx entry s
      in if interrupted s' then s'
         else process_loop opts env total_urls (Suc idx) rest s')"

text \<open>
  \<open>process_urls\<close>: the result holds the returned pair \<open>(success_count, failed_count)\<close>
  and the processor as the call leaves it.
\<close>

definition process_urls :: "(nat \<times> pystr) list \<Rightarrow> options \<Rightarrow> (nat \<Rightarrow> step_env) \<Rightarrow> batch \<Rightarrow> run" where
  "process_urls urls opts env b =
     process_loop opts env (length urls) 1 urls
       (batch.extend b \<lparr>success_count = 0, failed_count = 0, interrupted = False\<rparr>)"

section \<open>cli/batch.py: the command\<close>

text \<open>
  The values of core/config.py that \<open>main\<close> falls back on
  (\<open>get_default_output_dir\<close>, \<open>get_default_quality\<close>, \<open>get_default_format\<close>).
\<close>

record defaults =
  default_output_dir :: pystr
  default_quality :: pystr
  default_format :: pystr

text \<open>
  The parameters of \<open>main\<close>, each prefixed with \<open>cli\<close>; \<open>cli_report\<close> is the path of
  the report, when one is asked for.
\<close>

record cli =
  cli_file :: input_file
  cli_output :: "pystr option"
  cli_quality :: "pystr option"
  cli_format :: "pystr option"
  cli_keep_video :: bool
  cli_playlist :: bool
  cli_skip_existing :: bool
  cli_resume :: bool
  cli_clear_resume :: bool
  cli_report :: "pystr option"
  cli_verbose :: bool

text \<open>The lines of the report file, and what writing it does.\<close>

datatype report_line =
    Report_title
  | Report_generated
  | Report_rule
  | Report_input_file
  | Report_total nat
  | Report_successful nat
  | Report_failed nat
  | Report_duration
  | Report_failed_downloads
  | Report_line nat pystr
  | Report_error pystr
  | Report_time pystr

datatype report_outcome = Report_written | Report_fails pystr

text \<open>
  What deleting the resume file does: \<^verbatim>\<open>unlink\<close> removes it, or raises an exception with a
  message (the path is a directory, or the directory does not allow it).
\<close>

datatype unlink_outcome = Unlinked | Unlink_raises pystr

text \<open>
  How the command ends: the exit status, the processor and its world, the report file when
  one was written, and the exception that ended the command when nothing caught it (the
  status is then 1).
\<close>

record finished =
  status :: nat
  final :: batch
  report_file :: "report_line list option"
  uncaught :: "pystr option"

definition failed_lines :: "failed_map \<Rightarrow> message list" where
  "failed_lines d =
     concat (map (\<lambda>(url, info). [Failed_line (line info) url, Failed_error (error info)]) d)"

definition report_text :: "nat \<Rightarrow> nat \<Rightarrow> nat \<Rightarrow> failed_map \<Rightarrow> report_line list" where
  "report_text n_total n_success n_failed d =
     [Report_title, Report_generated, Report_rule, Report_input_file, Report_total n_total,
      Report_successful n_success, Report_failed n_failed, Report_duration]
     @ (if d \<noteq> []
        then Report_failed_downloads #
             concat (map (\<lambda>(url, info).
                        [Report_line (line info) url, Report_error (error info),
                         Report_time (timestamp info)]) d)
        else [])"

text \<open>
  \<open>main\<close>, block by block. First the options: what the command line gives, else the
  configured default.
\<close>

definition effective_options :: "defaults \<Rightarrow> cli \<Rightarrow> options" where
  "effective_options cfg a =
     \<lparr>output_dir = (case cli_output a of None \<Rightarrow> default_output_dir cfg | Some p \<Rightarrow> p),
      quality = (case cli_quality a of None \<Rightarrow> default_quality cfg | Some q \<Rightarrow> q),
      format = (case cli_format a of None \<Rightarrow> default_format cfg | Some f \<Rightarrow> f),
      keep_video = cli_keep_video a, playlist = cli_playlist a, verbose = cli_verbose a,
      skip_existing = cli_skip_existing a, resume = cli_resume a\<rparr>"

text \<open>
  The processor is built, which loads the resume file, and \<^verbatim>\<open>--clear-resume\<close> deletes
  the file, when there is one, and empties the state. Nothing catches an exception of
  \<^verbatim>\<open>unlink\<close>: the first component is then its message, and the command ends there.
\<close>

definition start_processor :: "unlink_outcome \<Rightarrow> cli \<Rightarrow> resume_content \<Rightarrow> pystr option \<times> batch" where
  "start_processor unl a disk =
     (let p0 = echo [Banner, Separator] (BatchProcessor disk)
      in if cli_clear_resume a \<and> resume_file p0 \<noteq> No_file
         then (case unl of
                 Unlink_raises e \<Rightarrow> (Some e, p0)
               | Unlinked \<Rightarrow>
                   (None,
                    echo [Reading_urls]
                      (echo [Cleared_resume_data]
                         (p0\<lparr>resume_file := No_file, processed_urls := {||},
                             failed_urls := []\<rparr>))))
         else (None, echo [Reading_urls] p0))"

text \<open>What is echoed between reading the list and processing it.\<close>

definition announce :: "options \<Rightarrow> (nat \<times> pystr) list \<Rightarrow> batch \<Rightarrow> batch" where
  "announce opts urls p =
     (let p4 = echo [Found_urls (length urls)] p;
          p5 = (if resume opts \<and> processed_urls p4 \<noteq> {||}
                then echo [Skipping_count
                             (length (filter (\<lambda>(n, url). url |\<in>| processed_urls p4) urls))]
                       p4
                else p4)
      in echo [Settings (output_dir opts) (format opts) (quality opts) (keep_video opts)
                 (playlist opts) (skip_existing opts) (resume opts), Starting] p5)"

text \<open>The summary, with every entry of \<open>failed_urls\<close>.\<close>

definition summary :: "(nat \<times> pystr) list \<Rightarrow> run \<Rightarrow> batch" where
  "summary urls r =
     (let p7 = echo [Separator, Summary_header, Total_urls (length urls),
                     Successful (success_count r), Failed (failed_count r), Duration]
                 (batch.truncate r)
      in if failed_urls p7 \<noteq> []
         then echo (Failed_urls_header # failed_lines (failed_urls p7)) p7
         else p7)"

text \<open>The report file, when asked for; an \<^verbatim>\<open>IOError\<close> while writing it is echoed.\<close>

definition save_report ::
  "report_outcome \<Rightarrow> pystr option \<Rightarrow> (nat \<times> pystr) list \<Rightarrow> run \<Rightarrow> batch
     \<Rightarrow> batch \<times> report_line list option" where
  "save_report rep path urls r p =
     (case path of
        None \<Rightarrow> (p, None)
      | Some f \<Rightarrow>
          (case rep of
             Report_written \<Rightarrow>
               (echo [Report_saved] p,
                Some (report_text (length urls) (success_count r) (failed_count r)
                        (failed_urls p)))
           | Report_fails e \<Rightarrow> (echo [Could_not_save_report e] p, None)))"

definition main ::
  "defaults \<Rightarrow> (nat \<Rightarrow> step_env) \<Rightarrow> unlink_outcome \<Rightarrow> report_outcome \<Rightarrow> cli
     \<Rightarrow> resume_content \<Rightarrow> finished" where
  "main cfg env unl rep a disk =
     (let opts = effective_options cfg a
      in case start_processor unl a disk of
           (Some e, p) \<Rightarrow> \<lparr>status = 1, final = p, report_file = None, uncaught = Some e\<rparr>
         | (None, p2) \<Rightarrow>
             (case read_urls_from_file (cli_file a) of
                (Inl code, out) \<Rightarrow>
                  \<lparr>status = code, final = echo out p2, report_file = None, uncaught = None\<rparr>
              | (Inr urls, out) \<Rightarrow>
                  (let p3 = echo out p2 in
                   if urls = []
                   then \<lparr>status = 1, final = echo [No_valid_urls] p3, report_file = None,
                         uncaught = None\<rparr>
                   else
                     (let r = process_urls urls opts env (announce opts urls p3);
                          (p9, written_report) =
                            save_report rep (cli_report a) urls r (summary urls r)
                      in \<lparr>status = (if failed_count r = 0 then 0 else 1), final = p9,
                          report_file = written_report, uncaught = None\<rparr>))))"

section \<open>Terms of the statements\<close>

text \<open>
  The content of the resume file after \<open>save_resume_data\<close>, from the two fields of the
  state, what the write does and the clock's reading.
\<close>

definition written :: "write_outcome \<Rightarrow> pystr \<Rightarrow> pystr fset \<Rightarrow> failed_map \<Rightarrow> resume_content \<Rightarrow> resume_content" where
  "written w c p f old = (case w of Written \<Rightarrow> Json \<lparr>doc_processed = Some (sorted_list_of_fset p), doc_failed = Some f, doc_last_updated = Some c\<rparr> | Open_fails \<Rightarrow> old | Write_fails \<Rightarrow> Not_json)"

text \<open>
  What one call of \<open>process_urls\<close> adds to the log of collaborator calls and to the
  console, and the messages that tell of an entry skipped as already processed.
\<close>

fun is_skip :: "message \<Rightarrow> bool" where
  "is_skip (Skipping_already_processed i t u) = True"
| "is_skip m = False"

definition new_calls :: "(nat \<times> pystr) list \<Rightarrow> options \<Rightarrow> (nat \<Rightarrow> step_env) \<Rightarrow> batch \<Rightarrow> call list" where
  "new_calls urls opts env b = drop (length (invoked b)) (invoked (process_urls urls opts env b))"

definition new_messages :: "(nat \<times> pystr) list \<Rightarrow> options \<Rightarrow> (nat \<Rightarrow> step_env) \<Rightarrow> batch \<Rightarrow> message list" where
  "new_messages urls opts env b = drop (length (echoed b)) (echoed (process_urls urls opts env b))"

text \<open>
  The file and the state agree: a processor built from the file now would hold the
  processed set and the failed map the state holds.
\<close>

definition in_sync :: "'a batch_scheme \<Rightarrow> bool" where
  "in_sync b = (processed_urls (BatchProcessor (resume_file b)) = processed_urls b
                \<and> failed_urls (BatchProcessor (resume_file b)) = failed_urls b)"

section \<open>The reading step in the words of the specification\<close>

text \<open>
  The specification's description of the reading step, to be compared with
  \<open>read_urls_from_file\<close>: the lines of the text are numbered from 1; a line is returned,
  stripped and with its number, when it is not blank, is not a comment and passes URL
  validation; a line that is not blank, is not a comment and fails URL validation is
  reported with its number. A line is blank when stripping leaves nothing, and a comment
  when what stripping leaves starts with the comment marker.
\<close>

definition numbered_lines :: "pystr \<Rightarrow> (nat \<times> pystr) list" where
  "numbered_lines text = zip [1..<Suc (length (file_lines text))] (file_lines text)"

definition is_url_line :: "pystr \<Rightarrow> bool" where
  "is_url_line l = (strip l \<noteq> [] \<and> \<not> startswith (strip l) (str ''#'') \<and> validate_url (strip l))"

definition is_invalid_line :: "pystr \<Rightarrow> bool" where
  "is_invalid_line l = (strip l \<noteq> [] \<and> \<not> startswith (strip l) (str ''#'') \<and> \<not> validate_url (strip l))"

definition spec_read_urls :: "pystr \<Rightarrow> (nat \<times> pystr) list" where
  "spec_read_urls text =
     map (\<lambda>(n, l). (n, strip l)) (filter (\<lambda>(n, l). is_url_line l) (numbered_lines text))"

definition spec_reported :: "pystr \<Rightarrow> message list" where
  "spec_reported text =
     map (\<lambda>(n, l). Skipping_invalid_url n (strip l))
       (filter (\<lambda>(n, l). is_invalid_line l) (numbered_lines text))"

section \<open>Example inputs\<close>

text \<open>
  Options without and with resume mode; environments in which every download succeeds,
  every download fails, the collaborator raises an exception without a message, the
  interrupt signal arrives inside the collaborator's \<^verbatim>\<open>try\<close> or before it, and the
  scenario of five URLs: two succeed, the third fails, the interrupt signal reaches the loop at the
  fourth.
\<close>

definition plain_options :: options where
  "plain_options =
     \<lparr>output_dir = str ''out'', quality = str ''192'', format = str ''mp3'', keep_video = False,
      playlist = False, verbose = False, skip_existing = False, resume = False\<rparr>"

definition resume_options :: options where
  "resume_options = plain_options\<lparr>resume := True\<rparr>"

definition all_succeed :: "nat \<Rightarrow> step_env" where
  "all_succeed i =
     \<lparr>setup_does = Setup_ok, ydl_does = Ydl_done, now = str ''t'', write_does = Written,
      save_now = str ''t''\<rparr>"

definition all_fail :: "nat \<Rightarrow> step_env" where
  "all_fail i = (all_succeed i)\<lparr>ydl_does := Ydl_download_error (str ''gone'')\<rparr>"

definition raise_blank :: "nat \<Rightarrow> step_env" where
  "raise_blank i = (all_succeed i)\<lparr>setup_does := Setup_raises []\<rparr>"

definition interrupt_inside :: "nat \<Rightarrow> step_env" where
  "interrupt_inside i = (all_succeed i)\<lparr>ydl_does := Ydl_interrupted\<rparr>"

definition interrupt_in_setup :: "nat \<Rightarrow> step_env" where
  "interrupt_in_setup i = (all_succeed i)\<lparr>setup_does := Setup_interrupted\<rparr>"

definition scenario_e :: "nat \<Rightarrow> step_env" where
  "scenario_e i =
     (all_succeed i)
       \<lparr>setup_does := (if i = 4 then Setup_interrupted else Setup_ok),
        ydl_does := (if i = 3 then Ydl_download_error (str ''gone'') else Ydl_done)\<rparr>"

definition five_urls :: "(nat \<times> pystr) list" where
  "five_urls = [(1, str ''https://a''), (2, str ''https://b''), (4, str ''https://c''),
                (5, str ''https://d''), (7, str ''https://e'')]"

definition one_url :: "(nat \<times> pystr) list" where
  "one_url = [(1, str ''https://x'')]"

definition processed_y :: batch where
  "processed_y = BatchProcessor (Json \<lparr>doc_processed = Some [str ''https://y''], doc_failed = None, doc_last_updated = None\<rparr>)"

definition fresh_run :: run where
  "fresh_run = batch.extend (BatchProcessor No_file) \<lparr>success_count = 0, failed_count = 0, interrupted = False\<rparr>"

definition after_three :: run where
  "after_three = process_loop resume_options scenario_e 5 1 (take 3 five_urls) fresh_run"

definition some_defaults :: defaults where
  "some_defaults = \<lparr>default_output_dir = str ''out'', default_quality = str ''192'', default_format = str ''mp3''\<rparr>"

definition plain_cli :: "pystr \<Rightarrow> cli" where
  "plain_cli text =
     \<lparr>cli_file = Text text, cli_output = None, cli_quality = None, cli_format = None,
      cli_keep_video = False, cli_playlist = False, cli_skip_existing = False,
      cli_resume = False, cli_clear_resume = False, cli_report = None, cli_verbose = False\<rparr>"

definition clearing_cli :: "pystr \<Rightarrow> cli" where
  "clearing_cli text = (plain_cli text)\<lparr>cli_clear_resume := True\<rparr>"

definition failed_x_file :: resume_content where
  "failed_x_file =
     Json \<lparr>doc_processed = None,
           doc_failed = Some [(str ''https://x'',
                               \<lparr>line = 3, error = str ''Download failed'', timestamp = str ''t''\<rparr>)],
           doc_last_updated = None\<rparr>"

definition failed_x_run :: run where
  "failed_x_run = batch.extend (BatchProcessor failed_x_file) \<lparr>success_count = 0, failed_count = 0, interrupted = False\<rparr>"

section \<open>Lemmas\<close>

lemma startswith_prefix: "startswith s p = prefix p s"
  unfolding startswith_def
  by (metis append_eq_conv_conj prefix_def take_is_prefix)

lemma validate_url_prefix:
  "validate_url s = (prefix (str ''http://'') s \<or> prefix (str ''https://'') s \<or> prefix (str ''www.'') s)"
  by (simp add: validate_url_def startswith_prefix)

lemma read_loop_filter:
  "read_loop n ls (urls, out) =
     (urls @ map (\<lambda>(n, l). (n, strip l)) (filter (\<lambda>(n, l). is_url_line l) (zip [n..<n + length ls] ls)),
      out @ map (\<lambda>(n, l). Skipping_invalid_url n (strip l))
              (filter (\<lambda>(n, l). is_invalid_line l) (zip [n..<n + length ls] ls)))"
proof (induction ls arbitrary: n urls out)
  case Nil
  show ?case by simp
next
  case (Cons l ls)
  have z: "zip [n..<n + length (l # ls)] (l # ls) = (n, l) # zip [Suc n..<Suc n + length ls] ls"
    by (simp add: upt_conv_Cons del: upt_Suc)
  show ?case
    unfolding z
    by (simp add: Cons.IH Let_def is_url_line_def is_invalid_line_def)
qed

lemma valid_not_comment: "validate_url s \<Longrightarrow> \<not> startswith s (str ''#'')"
  by (auto simp add: validate_url_prefix startswith_def str_def prefix_def)

lemma valid_not_blank: "validate_url s \<Longrightarrow> s \<noteq> []"
  by (auto simp add: validate_url_prefix str_def prefix_def)

lemma comment_marker_survives_strip:
  assumes "startswith l (str ''#'')"
  shows "startswith (strip l) (str ''#'')"
proof -
  from assms obtain t where l: "l = 35 # t"
    by (cases l) (auto simp add: startswith_def str_def)
  have ns: "\<not> isspace 35" by (simp add: isspace_def)
  have "dropWhile isspace (rev t @ [35]) = dropWhile isspace (rev t) @ [35]"
    using ns by (simp add: dropWhile_append3)
  then show ?thesis
    using ns by (simp add: l strip_def startswith_def str_def)
qed

lemma url_line_iff_valid: "is_url_line l = validate_url (strip l)"
  using valid_not_comment valid_not_blank by (auto simp add: is_url_line_def)

lemma url_line_raw_comment:
  "is_url_line l = (strip l \<noteq> [] \<and> \<not> startswith l (str ''#'') \<and> validate_url (strip l))"
  using comment_marker_survives_strip [of l] valid_not_comment [of "strip l"] valid_not_blank [of "strip l"]
  by (auto simp add: is_url_line_def)

lemma echo_fields [simp]:
  "processed_urls (echo ms b) = processed_urls b"
  "failed_urls (echo ms b) = failed_urls b"
  "resume_file (echo ms b) = resume_file b"
  "invoked (echo ms b) = invoked b"
  "echoed (echo ms b) = echoed b @ ms"
  "batch.more (echo ms b) = batch.more b"
  by (simp_all add: echo_def)

lemma echo_run_fields [simp]:
  "success_count (echo ms s) = success_count s"
  "failed_count (echo ms s) = failed_count s"
  "interrupted (echo ms s) = interrupted s"
  by (simp_all add: echo_def)

lemma save_fields [simp]:
  "processed_urls (save_resume_data w c b) = processed_urls b"
  "failed_urls (save_resume_data w c b) = failed_urls b"
  "invoked (save_resume_data w c b) = invoked b"
  "echoed (save_resume_data w c b) = echoed b"
  "batch.more (save_resume_data w c b) = batch.more b"
  by (simp_all add: save_resume_data_def split: write_outcome.split)

lemma save_run_fields [simp]:
  "success_count (save_resume_data w c s) = success_count s"
  "failed_count (save_resume_data w c s) = failed_count s"
  "interrupted (save_resume_data w c s) = interrupted s"
  by (simp_all add: save_resume_data_def split: write_outcome.split)

lemma save_file: "resume_file (save_resume_data w c b) = written w c (processed_urls b) (failed_urls b) (resume_file b)"
  by (simp add: save_resume_data_def written_def split: write_outcome.split)

lemma entry_skip:
  "resume opts \<Longrightarrow> url |\<in>| processed_urls s \<Longrightarrow>
   process_entry opts ev t i (n, url) s =
     (echo [Skipping_already_processed i t url] s)\<lparr>success_count := success_count s + 1\<rparr>"
  by (simp add: process_entry_def)

lemma entry_success:
  assumes "\<not> (resume opts \<and> url |\<in>| processed_urls s)"
    and "download_audio (setup_does ev) (ydl_does ev) (call_of opts url) = Returns True"
  shows "processed_urls (process_entry opts ev t i (n, url) s) = finsert url (processed_urls s)"
    and "failed_urls (process_entry opts ev t i (n, url) s) = failed_urls s"
    and "invoked (process_entry opts ev t i (n, url) s) = invoked s @ [call_of opts url]"
    and "success_count (process_entry opts ev t i (n, url) s) = success_count s + 1"
    and "failed_count (process_entry opts ev t i (n, url) s) = failed_count s"
    and "interrupted (process_entry opts ev t i (n, url) s) = interrupted s"
  using assms by (auto simp add: process_entry_def Let_def)

lemma setitem_keys [simp]: "fst ` set (setitem d k v) = insert k (fst ` set d)"
  by (induction d k v rule: setitem.induct) auto

lemma setitem_lookup [simp]: "map_of (setitem d k v) k = Some v"
  by (induction d k v rule: setitem.induct) auto

lemma setitem_other: "k' \<noteq> k \<Longrightarrow> map_of (setitem d k v) k' = map_of d k'"
  by (induction d k v rule: setitem.induct) auto

lemma download_audio_cases:
  "download_audio su yd c =
     (case su of Setup_raises e \<Rightarrow> Raises_Exception e
      | Setup_interrupted \<Rightarrow> Raises_KeyboardInterrupt
      | Setup_ok \<Rightarrow> Returns (yd = Ydl_done))"
  by (simp add: download_audio_def download_def split: setup_outcome.split ydl_outcome.split)

lemma entry_false:
  assumes "\<not> (resume opts \<and> url |\<in>| processed_urls s)"
    and "download_audio (setup_does ev) (ydl_does ev) (call_of opts url) = Returns False"
  shows "processed_urls (process_entry opts ev t i (n, url) s) = processed_urls s"
    and "failed_urls (process_entry opts ev t i (n, url) s) =
           setitem (failed_urls s) url \<lparr>line = n, error = str ''Download failed'', timestamp = now ev\<rparr>"
    and "invoked (process_entry opts ev t i (n, url) s) = invoked s @ [call_of opts url]"
    and "success_count (process_entry opts ev t i (n, url) s) = success_count s"
    and "failed_count (process_entry opts ev t i (n, url) s) = failed_count s + 1"
    and "interrupted (process_entry opts ev t i (n, url) s) = interrupted s"
  using assms by (auto simp add: process_entry_def Let_def)

lemma entry_raises:
  assumes "\<not> (resume opts \<and> url |\<in>| processed_urls s)"
    and "download_audio (setup_does ev) (ydl_does ev) (call_of opts url) = Raises_Exception e"
  shows "processed_urls (process_entry opts ev t i (n, url) s) = processed_urls s"
    and "failed_urls (process_entry opts ev t i (n, url) s) =
           setitem (failed_urls s) url \<lparr>line = n, error = e, timestamp = now ev\<rparr>"
    and "invoked (process_entry opts ev t i (n, url) s) = invoked s @ [call_of opts url]"
    and "success_count (process_entry opts ev t i (n, url) s) = success_count s"
    and "failed_count (process_entry opts ev t i (n, url) s) = failed_count s + 1"
    and "interrupted (process_entry opts ev t i (n, url) s) = interrupted s"
  using assms by (auto simp add: process_entry_def Let_def)

lemma entry_interrupt:
  assumes "\<not> (resume opts \<and> url |\<in>| processed_urls s)"
    and "download_audio (setup_does ev) (ydl_does ev) (call_of opts url) = Raises_KeyboardInterrupt"
  shows "processed_urls (process_entry opts ev t i (n, url) s) = processed_urls s"
    and "failed_urls (process_entry opts ev t i (n, url) s) = failed_urls s"
    and "invoked (process_entry opts ev t i (n, url) s) = invoked s @ [call_of opts url]"
    and "success_count (process_entry opts ev t i (n, url) s) = success_count s"
    and "failed_count (process_entry opts ev t i (n, url) s) = failed_count s"
    and "interrupted (process_entry opts ev t i (n, url) s)"
    and "resume_file (process_entry opts ev t i (n, url) s) =
           (if resume opts
            then written (write_does ev) (save_now ev) (processed_urls s) (failed_urls s) (resume_file s)
            else resume_file s)"
    and "echoed (process_entry opts ev t i (n, url) s) =
           echoed s @ [Separator, Processing_url i t n, Url_is url]
             @ (if skip_existing opts then [Checking_existing] else [])
             @ [Interrupted_by_user] @ (if resume opts then [Progress_saved i] else [])"
  using assms by (auto simp add: process_entry_def Let_def save_file)

lemma entry_grows:
  "processed_urls s |\<subseteq>| processed_urls (process_entry opts ev t i (n, url) s)"
  "fst ` set (failed_urls s) \<subseteq> fst ` set (failed_urls (process_entry opts ev t i (n, url) s))"
  "failed_count s \<le> failed_count (process_entry opts ev t i (n, url) s)"
  "invoked (process_entry opts ev t i (n, url) s) =
     invoked s @ (if resume opts \<and> url |\<in>| processed_urls s then [] else [call_of opts url])"
  by (auto simp add: process_entry_def Let_def split: call_result.split)

lemma entry_counts:
  "\<not> interrupted (process_entry opts ev t i (n, url) s) \<Longrightarrow>
   success_count (process_entry opts ev t i (n, url) s) + failed_count (process_entry opts ev t i (n, url) s)
     = success_count s + failed_count s + 1"
  by (auto simp add: process_entry_def Let_def split: call_result.splits if_splits)

lemma entry_echoed:
  "\<exists>ms. echoed (process_entry opts ev t i (n, url) s) = echoed s @ ms
        \<and> length (filter is_skip ms) = (if resume opts \<and> url |\<in>| processed_urls s then 1 else 0)"
  by (auto simp add: process_entry_def Let_def split: call_result.split)

lemma loop_counts:
  "\<not> interrupted (process_loop opts env t i urls s) \<Longrightarrow>
   success_count (process_loop opts env t i urls s) + failed_count (process_loop opts env t i urls s)
     = success_count s + failed_count s + length urls"
proof (induction urls arbitrary: i s)
  case Nil
  show ?case by simp
next
  case (Cons e urls)
  obtain n url where e: "e = (n, url)" by (cases e)
  let ?s' = "process_entry opts (env i) t i (n, url) s"
  from Cons.prems have ni: "\<not> interrupted ?s'"
    by (auto simp add: e Let_def split: if_splits)
  with Cons.prems have fin: "\<not> interrupted (process_loop opts env t (Suc i) urls ?s')"
    by (simp add: e Let_def)
  from Cons.IH [OF fin] entry_counts [OF ni] ni show ?case
    by (simp add: e Let_def)
qed

lemma loop_tally:
  "\<not> interrupted (process_loop opts env t i urls s) \<Longrightarrow>
   \<exists>cs ms. invoked (process_loop opts env t i urls s) = invoked s @ cs
     \<and> echoed (process_loop opts env t i urls s) = echoed s @ ms
     \<and> length cs + length (filter is_skip ms) = length urls"
proof (induction urls arbitrary: i s)
  case Nil
  show ?case by simp
next
  case (Cons e urls)
  obtain n url where e: "e = (n, url)" by (cases e)
  let ?s' = "process_entry opts (env i) t i (n, url) s"
  from Cons.prems have ni: "\<not> interrupted ?s'"
    by (auto simp add: e Let_def split: if_splits)
  with Cons.prems have fin: "\<not> interrupted (process_loop opts env t (Suc i) urls ?s')"
    by (simp add: e Let_def)
  from Cons.IH [OF fin] obtain cs ms where
    1: "invoked (process_loop opts env t (Suc i) urls ?s') = invoked ?s' @ cs"
    and 2: "echoed (process_loop opts env t (Suc i) urls ?s') = echoed ?s' @ ms"
    and 3: "length cs + length (filter is_skip ms) = length urls"
    by blast
  from entry_echoed [of opts "env i" t i n url s] obtain ms0 where
    4: "echoed ?s' = echoed s @ ms0"
    and 5: "length (filter is_skip ms0) = (if resume opts \<and> url |\<in>| processed_urls s then 1 else 0)"
    by blast
  have 6: "invoked ?s' = invoked s @ (if resume opts \<and> url |\<in>| processed_urls s then [] else [call_of opts url])"
    by (rule entry_grows)
  show ?case
    using ni 1 2 3 4 5 6
    by (simp add: e Let_def)
qed

lemma loop_processed_grows:
  "processed_urls s |\<subseteq>| processed_urls (process_loop opts env t i urls s)"
proof (induction urls arbitrary: i s)
  case Nil
  show ?case by simp
next
  case (Cons e urls)
  obtain n url where e: "e = (n, url)" by (cases e)
  let ?s' = "process_entry opts (env i) t i (n, url) s"
  have "processed_urls s |\<subseteq>| processed_urls ?s'" by (rule entry_grows)
  moreover have "processed_urls ?s' |\<subseteq>| processed_urls (process_loop opts env t (Suc i) urls ?s')"
    by (rule Cons.IH)
  ultimately show ?case by (auto simp add: e Let_def)
qed

lemma loop_failed_keys_grow:
  "fst ` set (failed_urls s) \<subseteq> fst ` set (failed_urls (process_loop opts env t i urls s))"
proof (induction urls arbitrary: i s)
  case Nil
  show ?case by simp
next
  case (Cons e urls)
  obtain n url where e: "e = (n, url)" by (cases e)
  let ?s' = "process_entry opts (env i) t i (n, url) s"
  have "fst ` set (failed_urls s) \<subseteq> fst ` set (failed_urls ?s')" by (rule entry_grows)
  moreover have "fst ` set (failed_urls ?s')
      \<subseteq> fst ` set (failed_urls (process_loop opts env t (Suc i) urls ?s'))"
    by (rule Cons.IH)
  ultimately show ?case by (auto simp add: e Let_def)
qed

lemma loop_failed_count_grows:
  "failed_count s \<le> failed_count (process_loop opts env t i urls s)"
proof (induction urls arbitrary: i s)
  case Nil
  show ?case by simp
next
  case (Cons e urls)
  obtain n url where e: "e = (n, url)" by (cases e)
  let ?s' = "process_entry opts (env i) t i (n, url) s"
  have "failed_count s \<le> failed_count ?s'" by (rule entry_grows)
  moreover have "failed_count ?s' \<le> failed_count (process_loop opts env t (Suc i) urls ?s')"
    by (rule Cons.IH)
  ultimately show ?case by (auto simp add: e Let_def)
qed

lemma load_after_write [simp]:
  "processed_urls (BatchProcessor (written Written c p f old)) = p"
  "failed_urls (BatchProcessor (written Written c p f old)) = f"
  by (simp_all add: BatchProcessor_def load_resume_data_def written_def)

lemma failed_line_in_lines:
  "(u, info) \<in> set d \<Longrightarrow> Failed_line (line info) u \<in> set (failed_lines d)"
  by (force simp add: failed_lines_def)

lemma truncate_fields [simp]:
  "processed_urls (batch.truncate r) = processed_urls r"
  "failed_urls (batch.truncate r) = failed_urls r"
  "resume_file (batch.truncate r) = resume_file r"
  "invoked (batch.truncate r) = invoked r"
  "echoed (batch.truncate r) = echoed r"
  by (simp_all add: batch.defs)

lemma extend_fields [simp]:
  "processed_urls (batch.extend b m) = processed_urls b"
  "failed_urls (batch.extend b m) = failed_urls b"
  "resume_file (batch.extend b m) = resume_file b"
  "invoked (batch.extend b m) = invoked b"
  "echoed (batch.extend b m) = echoed b"
  "batch.more (batch.extend b m) = m"
  by (simp_all add: batch.defs)

lemma extend_run_fields [simp]:
  "success_count (batch.extend b \<lparr>success_count = x, failed_count = y, interrupted = z\<rparr>) = x"
  "failed_count (batch.extend b \<lparr>success_count = x, failed_count = y, interrupted = z\<rparr>) = y"
  "interrupted (batch.extend b \<lparr>success_count = x, failed_count = y, interrupted = z\<rparr>) = z"
  by (simp_all add: batch.defs run.defs)

lemma call_url_call_of [simp]: "call_url (call_of opts u) = u"
  by (simp add: call_of_def)

lemma loop_skips:
  "resume opts \<Longrightarrow> url |\<in>| processed_urls s \<Longrightarrow>
   \<exists>cs. invoked (process_loop opts env t i urls s) = invoked s @ cs \<and> url \<notin> call_url ` set cs"
proof (induction urls arbitrary: i s)
  case Nil
  show ?case by simp
next
  case (Cons e urls)
  obtain n u where e: "e = (n, u)" by (cases e)
  let ?s' = "process_entry opts (env i) t i (n, u) s"
  have p: "url |\<in>| processed_urls ?s'"
    using Cons.prems(2) entry_grows(1) [of s opts "env i" t i n u] by blast
  have q: "invoked ?s' = invoked s @ (if resume opts \<and> u |\<in>| processed_urls s then [] else [call_of opts u])"
    by (rule entry_grows)
  from Cons.IH [OF Cons.prems(1) p] obtain cs where
    r: "invoked (process_loop opts env t (Suc i) urls ?s') = invoked ?s' @ cs"
    and k: "url \<notin> call_url ` set cs"
    by blast
  show ?case
  proof (cases "interrupted ?s'")
    case True
    then show ?thesis using q Cons.prems by (auto simp add: e Let_def)
  next
    case False
    then show ?thesis using q r k Cons.prems by (auto simp add: e Let_def)
  qed
qed

lemma loop_all_processed:
  "resume opts \<Longrightarrow> \<forall>u \<in> snd ` set urls. u |\<in>| processed_urls s \<Longrightarrow> \<not> interrupted s \<Longrightarrow>
   invoked (process_loop opts env t i urls s) = invoked s
   \<and> success_count (process_loop opts env t i urls s) = success_count s + length urls
   \<and> failed_count (process_loop opts env t i urls s) = failed_count s
   \<and> \<not> interrupted (process_loop opts env t i urls s)"
proof (induction urls arbitrary: i s)
  case Nil
  then show ?case by simp
next
  case (Cons e urls)
  obtain n u where e: "e = (n, u)" by (cases e)
  let ?s' = "(echo [Skipping_already_processed i t u] s)\<lparr>success_count := success_count s + 1\<rparr>"
  have u: "u |\<in>| processed_urls s" using Cons.prems(2) by (simp add: e)
  have s': "process_entry opts (env i) t i (n, u) s = ?s'"
    using Cons.prems(1) u by (rule entry_skip)
  have "\<forall>u \<in> snd ` set urls. u |\<in>| processed_urls ?s'"
    using Cons.prems(2) by simp
  moreover have "\<not> interrupted ?s'" using Cons.prems(3) by simp
  ultimately have "invoked (process_loop opts env t (Suc i) urls ?s') = invoked ?s'
   \<and> success_count (process_loop opts env t (Suc i) urls ?s') = success_count ?s' + length urls
   \<and> failed_count (process_loop opts env t (Suc i) urls ?s') = failed_count ?s'
   \<and> \<not> interrupted (process_loop opts env t (Suc i) urls ?s')"
    using Cons.IH [OF Cons.prems(1)] by blast
  then show ?case
    using Cons.prems(3) by (simp add: e s' Let_def)
qed

lemma entry_resume_file:
  "resume opts \<Longrightarrow> \<not> url |\<in>| processed_urls s \<Longrightarrow>
   resume_file (process_entry opts ev t i (n, url) s) =
     written (write_does ev) (save_now ev)
       (processed_urls (process_entry opts ev t i (n, url) s))
       (failed_urls (process_entry opts ev t i (n, url) s)) (resume_file s)"
  by (auto simp add: process_entry_def Let_def save_file split: call_result.split)

lemma in_sync_BatchProcessor [simp]: "in_sync (BatchProcessor disk)"
  by (simp add: in_sync_def BatchProcessor_def load_resume_data_def split: resume_content.split)

lemma in_sync_extend [simp]: "in_sync (batch.extend b m) = in_sync b"
  by (simp add: in_sync_def)

lemma entry_in_sync:
  assumes "resume opts" and "write_does ev = Written" and "in_sync s"
  shows "in_sync (process_entry opts ev t i (n, url) s)"
proof (cases "url |\<in>| processed_urls s")
  case True
  then show ?thesis
    using assms by (simp add: entry_skip in_sync_def)
next
  case False
  show ?thesis
    unfolding in_sync_def entry_resume_file [OF assms(1) False] assms(2)
    by simp
qed

lemma loop_in_sync:
  "resume opts \<Longrightarrow> \<forall>i. write_does (env i) = Written \<Longrightarrow> in_sync s \<Longrightarrow>
   in_sync (process_loop opts env t i urls s)"
proof (induction urls arbitrary: i s)
  case Nil
  then show ?case by simp
next
  case (Cons e urls)
  obtain n u where e: "e = (n, u)" by (cases e)
  let ?s' = "process_entry opts (env i) t i (n, u) s"
  have "in_sync ?s'"
    using Cons.prems by (simp add: entry_in_sync)
  then show ?case
    using Cons.IH [OF Cons.prems(1,2), of ?s' "Suc i"] by (simp add: e Let_def)
qed

lemma entry_no_failure:
  "\<not> interrupted (process_entry opts ev t i (n, url) s) \<Longrightarrow>
   failed_count (process_entry opts ev t i (n, url) s) = failed_count s \<Longrightarrow>
   url |\<in>| processed_urls (process_entry opts ev t i (n, url) s)"
  by (auto simp add: process_entry_def Let_def split: call_result.splits if_splits)

lemma loop_no_failure:
  "\<not> interrupted (process_loop opts env t i urls s) \<Longrightarrow>
   failed_count (process_loop opts env t i urls s) = failed_count s \<Longrightarrow>
   \<forall>u \<in> snd ` set urls. u |\<in>| processed_urls (process_loop opts env t i urls s)"
proof (induction urls arbitrary: i s)
  case Nil
  show ?case by simp
next
  case (Cons e urls)
  obtain n u where e: "e = (n, u)" by (cases e)
  let ?s' = "process_entry opts (env i) t i (n, u) s"
  let ?r = "process_loop opts env t (Suc i) urls ?s'"
  from Cons.prems(1) have ni: "\<not> interrupted ?s'"
    by (auto simp add: e Let_def split: if_splits)
  then have l: "process_loop opts env t i (e # urls) s = ?r"
    by (simp add: e Let_def)
  have a: "failed_count s \<le> failed_count ?s'" by (rule entry_grows)
  have b: "failed_count ?s' \<le> failed_count ?r" by (rule loop_failed_count_grows)
  from a b Cons.prems(2) have c: "failed_count ?s' = failed_count s" "failed_count ?r = failed_count ?s'"
    unfolding l by simp_all
  have "u |\<in>| processed_urls ?s'" using ni c(1) by (rule entry_no_failure)
  moreover have "processed_urls ?s' |\<subseteq>| processed_urls ?r" by (rule loop_processed_grows)
  ultimately have "u |\<in>| processed_urls ?r" by blast
  moreover have "\<forall>u \<in> snd ` set urls. u |\<in>| processed_urls ?r"
    using Cons.IH [of "Suc i" ?s'] Cons.prems(1) c(2) unfolding l by blast
  ultimately show ?case unfolding l by (simp add: e)
qed

lemma BatchProcessor_file [simp]: "resume_file (BatchProcessor disk) = disk"
  by (simp add: BatchProcessor_def load_resume_data_def split: resume_content.split)

lemma start_processor_uncaught:
  "fst (start_processor unl a disk) =
     (if cli_clear_resume a \<and> disk \<noteq> No_file
      then (case unl of Unlinked \<Rightarrow> None | Unlink_raises e \<Rightarrow> Some e)
      else None)"
  by (simp add: start_processor_def Let_def split: unlink_outcome.split)

lemma start_processor_fields:
  "\<not> cli_clear_resume a \<Longrightarrow>
   failed_urls (snd (start_processor unl a disk)) = failed_urls (BatchProcessor disk)"
  "invoked (snd (start_processor unl a disk)) = []"
  "echoed (snd (start_processor unl a disk)) =
     (case fst (start_processor unl a disk) of
        Some e \<Rightarrow> [Banner, Separator]
      | None \<Rightarrow>
          [Banner, Separator]
          @ (if cli_clear_resume a \<and> disk \<noteq> No_file then [Cleared_resume_data] else [])
          @ [Reading_urls])"
  by (simp_all add: start_processor_def Let_def BatchProcessor_def load_resume_data_def
      split: resume_content.split unlink_outcome.split)

lemma announce_fields [simp]:
  "failed_urls (announce opts urls p) = failed_urls p"
  "processed_urls (announce opts urls p) = processed_urls p"
  "resume_file (announce opts urls p) = resume_file p"
  "invoked (announce opts urls p) = invoked p"
  by (simp_all add: announce_def Let_def)

lemma summary_fields [simp]:
  "failed_urls (summary urls r) = failed_urls r"
  "processed_urls (summary urls r) = processed_urls r"
  "resume_file (summary urls r) = resume_file r"
  "invoked (summary urls r) = invoked r"
  by (simp_all add: summary_def Let_def)

lemma summary_lists_failures:
  "set (failed_lines (failed_urls r)) \<subseteq> set (echoed (summary urls r))"
  by (auto simp add: summary_def Let_def failed_lines_def)

lemma save_report_fields [simp]:
  "failed_urls (fst (save_report rep path urls r p)) = failed_urls p"
  "processed_urls (fst (save_report rep path urls r p)) = processed_urls p"
  "resume_file (fst (save_report rep path urls r p)) = resume_file p"
  "invoked (fst (save_report rep path urls r p)) = invoked p"
  by (simp_all add: save_report_def split: option.split report_outcome.split)

lemma save_report_echoed:
  "set (echoed p) \<subseteq> set (echoed (fst (save_report rep path urls r p)))"
  by (auto simp add: save_report_def split: option.split report_outcome.split)

lemma main_processes:
  assumes "read_urls_from_file (cli_file a) = (Inr urls, out)" and "urls \<noteq> []"
    and "start_processor unl a disk = (None, p)"
  shows "final (main cfg env unl rep a disk) =
           fst (save_report rep (cli_report a) urls
                  (process_urls urls (effective_options cfg a) env
                     (announce (effective_options cfg a) urls (echo out p)))
                  (summary urls
                     (process_urls urls (effective_options cfg a) env
                        (announce (effective_options cfg a) urls (echo out p)))))"
    and "status (main cfg env unl rep a disk) =
           (if failed_count (process_urls urls (effective_options cfg a) env
                     (announce (effective_options cfg a) urls (echo out p))) = 0
            then 0 else 1)"
  using assms by (simp_all add: main_def Let_def split: prod.split)

lemmas example_simps = plain_options_def resume_options_def all_succeed_def all_fail_def
  raise_blank_def scenario_e_def five_urls_def processed_y_def one_url_def interrupt_inside_def
  fresh_run_def after_three_def some_defaults_def plain_cli_def failed_x_file_def
  failed_x_run_def interrupt_in_setup_def clearing_cli_def

lemmas read_simps = read_urls_from_file_def file_lines_def str_def strip_def isspace_def
  startswith_def validate_url_def Let_def

lemmas eval_simps = process_urls_def process_entry_def download_audio_def download_def call_of_def
  echo_def save_resume_data_def load_resume_data_def BatchProcessor_def batch.defs run.defs Let_def
  new_calls_def new_messages_def str_def

section \<open>The claims\<close>

subsection \<open>C1: what the two counters add up to\<close>

text \<open>
  C1, as amended. After a run of \<open>process_urls\<close> that was not interrupted,
  \<open>success_count + failed_count\<close> is the number of entries of the list: an entry skipped
  as already processed in resume mode is counted as a success. The sum is therefore the
  number of collaborator calls made plus the number of entries skipped.
\<close>

theorem counts_cover_every_entry:
  assumes "\<not> interrupted (process_urls urls opts env b)"
  shows "success_count (process_urls urls opts env b) + failed_count (process_urls urls opts env b)
           = length urls
         \<and> length (new_calls urls opts env b)
             + length (filter is_skip (new_messages urls opts env b)) = length urls"
proof -
  let ?s = "batch.extend b \<lparr>success_count = 0, failed_count = 0, interrupted = False\<rparr>"
  from assms have ni: "\<not> interrupted (process_loop opts env (length urls) 1 urls ?s)"
    by (simp add: process_urls_def)
  from loop_counts [OF ni] have 1: "success_count (process_urls urls opts env b)
      + failed_count (process_urls urls opts env b) = length urls"
    by (simp add: process_urls_def)
  from loop_tally [OF ni] obtain cs ms where
    "invoked (process_urls urls opts env b) = invoked b @ cs"
    "echoed (process_urls urls opts env b) = echoed b @ ms"
    "length cs + length (filter is_skip ms) = length urls"
    by (auto simp add: process_urls_def)
  then have 2: "length (new_calls urls opts env b)
      + length (filter is_skip (new_messages urls opts env b)) = length urls"
    by (simp add: new_calls_def new_messages_def)
  from 1 2 show ?thesis by simp
qed

text \<open>Five URLs, all downloaded: the run is complete and the counters add up to five.\<close>

theorem counts_cover_every_entry_witness:
  "\<not> interrupted (process_urls five_urls plain_options all_succeed (BatchProcessor No_file))
   \<and> success_count (process_urls five_urls plain_options all_succeed (BatchProcessor No_file))
       + failed_count (process_urls five_urls plain_options all_succeed (BatchProcessor No_file))
       = length five_urls
   \<and> length (new_calls five_urls plain_options all_succeed (BatchProcessor No_file))
       + length (filter is_skip (new_messages five_urls plain_options all_succeed (BatchProcessor No_file)))
       = length five_urls"
proof -
  have h: "\<not> interrupted (process_urls five_urls plain_options all_succeed (BatchProcessor No_file))"
    by (simp add: eval_simps example_simps)
  from counts_cover_every_entry [OF h] h show ?thesis by blast
qed

text \<open>
  Against C1 as stated: in resume mode, with the only URL of the list already processed,
  the run is complete, no call of the collaborator is made, and the counters add up to 1.
\<close>

theorem skipped_entry_counts_as_success:
  "\<not> interrupted (process_urls [(1, str ''https://y'')] resume_options all_succeed processed_y)
   \<and> new_calls [(1, str ''https://y'')] resume_options all_succeed processed_y = []
   \<and> success_count (process_urls [(1, str ''https://y'')] resume_options all_succeed processed_y)
       + failed_count (process_urls [(1, str ''https://y'')] resume_options all_succeed processed_y)
       = 1
   \<and> success_count (process_urls [(1, str ''https://y'')] resume_options all_succeed processed_y)
       + failed_count (process_urls [(1, str ''https://y'')] resume_options all_succeed processed_y)
       \<noteq> length (new_calls [(1, str ''https://y'')] resume_options all_succeed processed_y)"
  by (simp add: eval_simps example_simps)

subsection \<open>C2: reading the list\<close>

text \<open>
  C2. For every input text, \<open>read_urls_from_file\<close> returns exactly the pairs of line number
  and stripped line for the lines that are not blank, are not comments and pass URL
  validation, in the order of the file and with line numbers counted from 1, and it
  reports every line it skips as an invalid URL with that line's number. The list is the
  same whether a comment is a line that starts with the marker or one whose stripped text
  does.
\<close>

theorem read_urls_returns_valid_lines:
  "read_urls_from_file (Text text) = (Inr (spec_read_urls text), spec_reported text)
   \<and> spec_read_urls text
       = map (\<lambda>(n, l). (n, strip l))
           (filter (\<lambda>(n, l). strip l \<noteq> [] \<and> \<not> startswith l (str ''#'') \<and> validate_url (strip l))
              (numbered_lines text))"
proof
  show "read_urls_from_file (Text text) = (Inr (spec_read_urls text), spec_reported text)"
    by (simp add: read_urls_from_file_def read_loop_filter spec_read_urls_def spec_reported_def
        numbered_lines_def)
  have "(\<lambda>(n :: nat, l). is_url_line l)
      = (\<lambda>(n, l). strip l \<noteq> [] \<and> \<not> startswith l (str ''#'') \<and> validate_url (strip l))"
    by (simp add: url_line_raw_comment)
  then show "spec_read_urls text
       = map (\<lambda>(n, l). (n, strip l))
           (filter (\<lambda>(n, l). strip l \<noteq> [] \<and> \<not> startswith l (str ''#'') \<and> validate_url (strip l))
              (numbered_lines text))"
    by (simp add: spec_read_urls_def)
qed

text \<open>
  A comment, a URL, a blank line, an indented URL ending in carriage return and line
  feed, and a line with another scheme: two entries, and one line reported.
\<close>

theorem read_urls_returns_valid_lines_witness:
  "spec_read_urls
     (str ''# songs'' @ [10] @ str ''https://a'' @ [10] @ [10] @ str ''  www.b  '' @ [13, 10]
        @ str ''ftp://c'')
   = [(2, str ''https://a''), (4, str ''www.b'')]
   \<and> spec_reported
     (str ''# songs'' @ [10] @ str ''https://a'' @ [10] @ [10] @ str ''  www.b  '' @ [13, 10]
        @ str ''ftp://c'')
   = [Skipping_invalid_url 5 (str ''ftp://c'')]"
proof -
  have "read_urls_from_file
     (Text (str ''# songs'' @ [10] @ str ''https://a'' @ [10] @ [10] @ str ''  www.b  '' @ [13, 10]
        @ str ''ftp://c''))
   = (Inr [(2, str ''https://a''), (4, str ''www.b'')], [Skipping_invalid_url 5 (str ''ftp://c'')])"
    by (simp add: read_simps)
  then show ?thesis
    unfolding read_urls_returns_valid_lines [THEN conjunct1] by simp
qed

subsection \<open>C3: a failure is recorded and the batch goes on\<close>

text \<open>
  C3, as amended. For every entry on which the collaborator is called and returns failure
  or raises an exception, \<open>process_urls\<close> records the URL in the failed map with the
  entry's line number, a timestamp and an error text, which is the fixed text
  \<^verbatim>\<open>Download failed\<close> when the collaborator returns failure and the message of the exception
  when it raises one; it increments \<open>failed_count\<close> and goes on with the remaining
  entries, and the URL is in the failed map when the loop ends.
\<close>

theorem failure_recorded_and_batch_continues:
  assumes "\<not> interrupted s"
    and "\<not> (resume opts \<and> url |\<in>| processed_urls s)"
    and "download_audio (setup_does (env idx)) (ydl_does (env idx)) (call_of opts url) = outcome"
    and "outcome \<in> {Returns False, Raises_Exception e}"
  shows "let s' = process_entry opts (env idx) total_urls idx (line_num, url) s in
           map_of (failed_urls s') url =
             Some \<lparr>line = line_num,
                   error = (if outcome = Returns False then str ''Download failed'' else e),
                   timestamp = now (env idx)\<rparr>
           \<and> str ''Download failed'' \<noteq> []
           \<and> failed_count s' = failed_count s + 1
           \<and> success_count s' = success_count s
           \<and> \<not> interrupted s'
           \<and> process_loop opts env total_urls idx ((line_num, url) # rest) s
               = process_loop opts env total_urls (Suc idx) rest s'
           \<and> url \<in> fst ` set (failed_urls (process_loop opts env total_urls idx ((line_num, url) # rest) s))
           \<and> failed_count s < failed_count (process_loop opts env total_urls idx ((line_num, url) # rest) s)"
proof -
  let ?s' = "process_entry opts (env idx) total_urls idx (line_num, url) s"
  have f: "failed_urls ?s' =
             setitem (failed_urls s) url
               \<lparr>line = line_num,
                error = (if outcome = Returns False then str ''Download failed'' else e),
                timestamp = now (env idx)\<rparr>"
    and c: "failed_count ?s' = failed_count s + 1" "success_count ?s' = success_count s"
    and i: "interrupted ?s' = interrupted s"
    using assms(2-4) entry_false [of opts url s "env idx" total_urls idx line_num]
      entry_raises [of opts url s "env idx" e total_urls idx line_num]
    by auto
  have l: "process_loop opts env total_urls idx ((line_num, url) # rest) s
             = process_loop opts env total_urls (Suc idx) rest ?s'"
    using i assms(1) by (simp add: Let_def)
  have k: "url \<in> fst ` set (failed_urls ?s')"
    by (simp add: f)
  have g: "url \<in> fst ` set (failed_urls (process_loop opts env total_urls (Suc idx) rest ?s'))"
    using k loop_failed_keys_grow [of ?s' opts env total_urls "Suc idx" rest] by blast
  have h: "failed_count ?s' \<le> failed_count (process_loop opts env total_urls (Suc idx) rest ?s')"
    by (rule loop_failed_count_grows)
  show ?thesis
    unfolding Let_def l
    using f c i assms(1) g h by (simp add: str_def)
qed

text \<open>A download that fails on the first of two entries.\<close>

theorem failure_recorded_and_batch_continues_witness:
  "\<not> interrupted fresh_run
   \<and> \<not> (resume plain_options \<and> str ''https://x'' |\<in>| processed_urls fresh_run)
   \<and> download_audio (setup_does (all_fail 1)) (ydl_does (all_fail 1))
        (call_of plain_options (str ''https://x'')) = Returns False
   \<and> Returns False \<in> {Returns False, Raises_Exception []}
   \<and> (let s' = process_entry plain_options (all_fail 1) 2 1 (1, str ''https://x'') fresh_run in
           map_of (failed_urls s') (str ''https://x'') =
             Some \<lparr>line = 1,
                   error = (if Returns False = Returns False then str ''Download failed'' else []),
                   timestamp = now (all_fail 1)\<rparr>
           \<and> str ''Download failed'' \<noteq> []
           \<and> failed_count s' = failed_count fresh_run + 1
           \<and> success_count s' = success_count fresh_run
           \<and> \<not> interrupted s'
           \<and> process_loop plain_options all_fail 2 1 ((1, str ''https://x'') # [(2, str ''https://y'')]) fresh_run
               = process_loop plain_options all_fail 2 (Suc 1) [(2, str ''https://y'')] s'
           \<and> str ''https://x'' \<in> fst ` set (failed_urls (process_loop plain_options all_fail 2 1 ((1, str ''https://x'') # [(2, str ''https://y'')]) fresh_run))
           \<and> failed_count fresh_run < failed_count (process_loop plain_options all_fail 2 1 ((1, str ''https://x'') # [(2, str ''https://y'')]) fresh_run))"
proof -
  have 1: "\<not> interrupted fresh_run"
    by (simp add: eval_simps example_simps)
  have 2: "\<not> (resume plain_options \<and> str ''https://x'' |\<in>| processed_urls fresh_run)"
    by (simp add: eval_simps example_simps)
  have 3: "download_audio (setup_does (all_fail 1)) (ydl_does (all_fail 1))
        (call_of plain_options (str ''https://x'')) = Returns False"
    by (simp add: eval_simps example_simps)
  have 4: "Returns False \<in> {Returns False, Raises_Exception []}"
    by simp
  from failure_recorded_and_batch_continues [where env = all_fail and idx = 1 and total_urls = 2
      and line_num = 1 and rest = "[(2, str ''https://y'')]", OF 1 2 3 4] 1 2 3 4
  show ?thesis by blast
qed

text \<open>
  Against C3 as stated: when the collaborator raises an exception that has no message, the
  error text recorded is empty.
\<close>

theorem blank_exception_text:
  "download_audio (setup_does (raise_blank 1)) (ydl_does (raise_blank 1))
     (call_of plain_options (str ''https://x'')) = Raises_Exception []
   \<and> map_of (failed_urls (process_urls one_url plain_options raise_blank (BatchProcessor No_file)))
       (str ''https://x'')
     = Some \<lparr>line = 1, error = [], timestamp = str ''t''\<rparr>"
  by (simp add: eval_simps example_simps)

subsection \<open>C4: the interrupt signal\<close>

text \<open>
  C4, as amended. An interrupt that comes out of the collaborator's call ends the loop at
  once: the remaining entries are not touched and the counters, the processed set and
  the failed map stay as they were. In resume mode the handler then writes the resume
  file from the state accumulated so far, so that after a write that succeeds the file
  holds exactly that state, and it reports the index of the interrupted entry; outside
  resume mode it writes nothing.
\<close>

theorem interrupt_stops_loop:
  assumes "\<not> (resume opts \<and> url |\<in>| processed_urls s)"
    and "download_audio (setup_does (env idx)) (ydl_does (env idx)) (call_of opts url)
           = Raises_KeyboardInterrupt"
  shows "let s' = process_loop opts env total_urls idx ((line_num, url) # rest) s in
           interrupted s'
           \<and> invoked s' = invoked s @ [call_of opts url]
           \<and> success_count s' = success_count s \<and> failed_count s' = failed_count s
           \<and> processed_urls s' = processed_urls s \<and> failed_urls s' = failed_urls s
           \<and> resume_file s' =
               (if resume opts
                then resume_file (save_resume_data (write_does (env idx)) (save_now (env idx)) s)
                else resume_file s)
           \<and> last (echoed s') = (if resume opts then Progress_saved idx else Interrupted_by_user)
           \<and> (resume opts \<and> write_does (env idx) = Written \<longrightarrow>
                processed_urls (BatchProcessor (resume_file s')) = processed_urls s
                \<and> failed_urls (BatchProcessor (resume_file s')) = failed_urls s)"
proof -
  let ?s' = "process_entry opts (env idx) total_urls idx (line_num, url) s"
  note e = entry_interrupt [OF assms, of total_urls idx line_num]
  have l: "process_loop opts env total_urls idx ((line_num, url) # rest) s = ?s'"
    using e(6) by (simp add: Let_def)
  show ?thesis
    unfolding Let_def l
    using e by (simp add: save_file)
qed

text \<open>
  Five URLs in resume mode, the interrupt at the fourth: the file holds the outcomes of
  the first three, two processed URLs and one failed URL.
\<close>

theorem interrupt_stops_loop_witness:
  "\<not> (resume resume_options \<and> str ''https://d'' |\<in>| processed_urls after_three)
   \<and> download_audio (setup_does (scenario_e 4)) (ydl_does (scenario_e 4))
        (call_of resume_options (str ''https://d'')) = Raises_KeyboardInterrupt
   \<and> process_urls five_urls resume_options scenario_e (BatchProcessor No_file)
       = process_loop resume_options scenario_e 5 4
           ((5, str ''https://d'') # [(7, str ''https://e'')]) after_three
   \<and> interrupted (process_urls five_urls resume_options scenario_e (BatchProcessor No_file))
   \<and> map call_url (invoked (process_urls five_urls resume_options scenario_e (BatchProcessor No_file)))
       = [str ''https://a'', str ''https://b'', str ''https://c'', str ''https://d'']
   \<and> last (echoed (process_urls five_urls resume_options scenario_e (BatchProcessor No_file)))
       = Progress_saved 4
   \<and> processed_urls (BatchProcessor (resume_file
         (process_urls five_urls resume_options scenario_e (BatchProcessor No_file))))
       = {|str ''https://b'', str ''https://a''|}
   \<and> failed_urls (BatchProcessor (resume_file
         (process_urls five_urls resume_options scenario_e (BatchProcessor No_file))))
       = [(str ''https://c'',
           \<lparr>line = 4, error = str ''Download failed'', timestamp = str ''t''\<rparr>)]"
proof -
  let ?r = "process_loop resume_options scenario_e 5 4
           ((5, str ''https://d'') # [(7, str ''https://e'')]) after_three"
  have p: "processed_urls after_three = {|str ''https://b'', str ''https://a''|}"
    by (simp add: eval_simps example_simps)
  have f: "failed_urls after_three
      = [(str ''https://c'', \<lparr>line = 4, error = str ''Download failed'', timestamp = str ''t''\<rparr>)]"
    by (simp add: eval_simps example_simps)
  have c: "map call_url (invoked after_three) = [str ''https://a'', str ''https://b'', str ''https://c'']"
    by (simp add: eval_simps example_simps)
  have 1: "\<not> (resume resume_options \<and> str ''https://d'' |\<in>| processed_urls after_three)"
    unfolding p by (simp add: str_def)
  have 2: "download_audio (setup_does (scenario_e 4)) (ydl_does (scenario_e 4))
        (call_of resume_options (str ''https://d'')) = Raises_KeyboardInterrupt"
    by (simp add: eval_simps example_simps)
  have 3: "process_urls five_urls resume_options scenario_e (BatchProcessor No_file) = ?r"
    by (simp add: eval_simps example_simps)
  have w: "resume resume_options \<and> write_does (scenario_e 4) = Written"
    by (simp add: example_simps)
  note t = interrupt_stops_loop [where env = scenario_e and idx = 4 and total_urls = 5
      and line_num = 5 and rest = "[(7, str ''https://e'')]", OF 1 2, unfolded Let_def]
  from t have i: "interrupted ?r" by blast
  from t have v: "invoked ?r = invoked after_three @ [call_of resume_options (str ''https://d'')]"
    by blast
  from t w have e: "last (echoed ?r) = Progress_saved 4" by simp
  from t w have pp: "processed_urls (BatchProcessor (resume_file ?r)) = processed_urls after_three"
    and ff: "failed_urls (BatchProcessor (resume_file ?r)) = failed_urls after_three"
    by blast+
  have cc: "map call_url (invoked ?r)
      = [str ''https://a'', str ''https://b'', str ''https://c'', str ''https://d'']"
    unfolding v by (simp add: c)
  have pp': "processed_urls (BatchProcessor (resume_file ?r))
      = {|str ''https://b'', str ''https://a''|}"
    using pp p by (rule trans)
  have ff': "failed_urls (BatchProcessor (resume_file ?r))
      = [(str ''https://c'', \<lparr>line = 4, error = str ''Download failed'', timestamp = str ''t''\<rparr>)]"
    using ff f by (rule trans)
  show ?thesis
    unfolding 3
    by (intro conjI 1 2 refl i cc e pp' ff')
qed

text \<open>
  Against C4 as stated: the same run outside resume mode ends with two processed URLs and
  one failed URL in the state and no resume file.
\<close>

theorem interrupt_without_resume_saves_nothing:
  "interrupted (process_urls five_urls plain_options scenario_e (BatchProcessor No_file))
   \<and> processed_urls (process_urls five_urls plain_options scenario_e (BatchProcessor No_file))
       = {|str ''https://b'', str ''https://a''|}
   \<and> map fst (failed_urls (process_urls five_urls plain_options scenario_e (BatchProcessor No_file)))
       = [str ''https://c'']
   \<and> resume_file (process_urls five_urls plain_options scenario_e (BatchProcessor No_file)) = No_file
   \<and> last (echoed (process_urls five_urls plain_options scenario_e (BatchProcessor No_file)))
       = Interrupted_by_user"
  by (simp add: eval_simps example_simps)

subsection \<open>C5: resume mode skips what is processed\<close>

text \<open>
  C5, as amended. In resume mode an entry whose URL is in the processed set is counted as
  a success without a call of the collaborator, and no call of a run is for a URL that
  was in the processed set when the run began. When every URL of the list is in the
  processed set, the run makes no call at all and counts every entry as a success. So a
  second run over the same list, from the file the first run left, makes no call when the
  first run was complete, had no failure and its writes succeeded.
\<close>

theorem resume_skips_processed_urls:
  assumes "resume opts"
  shows "(url |\<in>| processed_urls s \<longrightarrow>
            invoked (process_entry opts ev total_urls idx (line_num, url) s) = invoked s
            \<and> success_count (process_entry opts ev total_urls idx (line_num, url) s)
                = success_count s + 1)
         \<and> (url |\<in>| processed_urls b \<longrightarrow> url \<notin> call_url ` set (new_calls urls opts env b))
         \<and> ((\<forall>u \<in> snd ` set urls. u |\<in>| processed_urls b) \<longrightarrow>
              new_calls urls opts env b = []
              \<and> success_count (process_urls urls opts env b) = length urls
              \<and> failed_count (process_urls urls opts env b) = 0)
         \<and> ((\<forall>i. write_does (env i) = Written)
              \<and> \<not> interrupted (process_urls urls opts env (BatchProcessor disk))
              \<and> failed_count (process_urls urls opts env (BatchProcessor disk)) = 0 \<longrightarrow>
              new_calls urls opts env'
                (BatchProcessor (resume_file (process_urls urls opts env (BatchProcessor disk)))) = []
              \<and> success_count (process_urls urls opts env'
                   (BatchProcessor (resume_file (process_urls urls opts env (BatchProcessor disk)))))
                  = length urls)"
proof (intro conjI impI)
  assume "url |\<in>| processed_urls s"
  then show "invoked (process_entry opts ev total_urls idx (line_num, url) s) = invoked s"
    and "success_count (process_entry opts ev total_urls idx (line_num, url) s) = success_count s + 1"
    using assms by (simp_all add: entry_skip)
next
  assume "url |\<in>| processed_urls b"
  then obtain cs where "invoked (process_urls urls opts env b) = invoked b @ cs"
    and "url \<notin> call_url ` set cs"
    using loop_skips [OF assms, of url
        "batch.extend b \<lparr>success_count = 0, failed_count = 0, interrupted = False\<rparr>"
        env "length urls" 1 urls]
    by (auto simp add: process_urls_def)
  then show "url \<notin> call_url ` set (new_calls urls opts env b)"
    by (simp add: new_calls_def)
next
  assume a: "\<forall>u \<in> snd ` set urls. u |\<in>| processed_urls b"
  have all: "\<And>b env. \<forall>u \<in> snd ` set urls. u |\<in>| processed_urls b \<Longrightarrow>
      new_calls urls opts env b = []
      \<and> success_count (process_urls urls opts env b) = length urls
      \<and> failed_count (process_urls urls opts env b) = 0"
    using loop_all_processed [OF assms, of urls
        "batch.extend b \<lparr>success_count = 0, failed_count = 0, interrupted = False\<rparr>" for b]
    by (simp add: process_urls_def new_calls_def)
  from all [OF a] show "new_calls urls opts env b = []"
    and "success_count (process_urls urls opts env b) = length urls"
    and "failed_count (process_urls urls opts env b) = 0"
    by simp_all
next
  let ?r = "process_urls urls opts env (BatchProcessor disk)"
  let ?s = "batch.extend (BatchProcessor disk) \<lparr>success_count = 0, failed_count = 0, interrupted = False\<rparr>"
  assume h: "(\<forall>i. write_does (env i) = Written) \<and> \<not> interrupted ?r \<and> failed_count ?r = 0"
  have sync: "in_sync ?r"
    unfolding process_urls_def
    using assms h by (intro loop_in_sync) simp_all
  have allp: "\<forall>u \<in> snd ` set urls. u |\<in>| processed_urls ?r"
    unfolding process_urls_def
    using h by (intro loop_no_failure) (simp_all add: process_urls_def)
  from sync have p: "processed_urls (BatchProcessor (resume_file ?r)) = processed_urls ?r"
    by (simp add: in_sync_def)
  have b2: "\<forall>u \<in> snd ` set urls. u |\<in>| processed_urls (BatchProcessor (resume_file ?r))"
    unfolding p by (rule allp)
  from loop_all_processed [OF assms, of urls
      "batch.extend (BatchProcessor (resume_file ?r)) \<lparr>success_count = 0, failed_count = 0, interrupted = False\<rparr>"
      env' "length urls" 1] b2
  show "new_calls urls opts env' (BatchProcessor (resume_file ?r)) = []"
    and "success_count (process_urls urls opts env' (BatchProcessor (resume_file ?r))) = length urls"
    by (simp_all add: process_urls_def new_calls_def)
qed

text \<open>One URL, already processed; and one URL downloaded by a first run and met again.\<close>

theorem resume_skips_processed_urls_witness:
  "resume resume_options
   \<and> str ''https://y'' |\<in>| processed_urls (batch.extend processed_y \<lparr>success_count = 0, failed_count = 0, interrupted = False\<rparr>)
   \<and> str ''https://y'' |\<in>| processed_urls processed_y
   \<and> (\<forall>i. write_does (all_succeed i) = Written)
   \<and> \<not> interrupted (process_urls [(1, str ''https://y'')] resume_options all_succeed (BatchProcessor No_file))
   \<and> failed_count (process_urls [(1, str ''https://y'')] resume_options all_succeed (BatchProcessor No_file)) = 0
   \<and> invoked (process_entry resume_options (all_fail 1) 1 1 (1, str ''https://y'')
                (batch.extend processed_y \<lparr>success_count = 0, failed_count = 0, interrupted = False\<rparr>))
       = invoked (batch.extend processed_y \<lparr>success_count = 0, failed_count = 0, interrupted = False\<rparr>)
   \<and> str ''https://y'' \<notin> call_url ` set (new_calls [(1, str ''https://y'')] resume_options all_succeed processed_y)
   \<and> new_calls [(1, str ''https://y'')] resume_options all_succeed processed_y = []
   \<and> success_count (process_urls [(1, str ''https://y'')] resume_options all_succeed processed_y) = 1
   \<and> new_calls [(1, str ''https://y'')] resume_options all_fail
        (BatchProcessor (resume_file
           (process_urls [(1, str ''https://y'')] resume_options all_succeed (BatchProcessor No_file)))) = []"
proof -
  let ?s = "batch.extend processed_y \<lparr>success_count = 0, failed_count = 0, interrupted = False\<rparr>"
  have 0: "resume resume_options"
    by (simp add: example_simps)
  have 1: "str ''https://y'' |\<in>| processed_urls ?s"
    by (simp add: example_simps BatchProcessor_def load_resume_data_def)
  have 2: "str ''https://y'' |\<in>| processed_urls processed_y"
    by (simp add: example_simps BatchProcessor_def load_resume_data_def)
  have 3: "\<forall>u \<in> snd ` set [(1, str ''https://y'')]. u |\<in>| processed_urls processed_y"
    using 2 by simp
  have 4: "\<forall>i. write_does (all_succeed i) = Written"
    by (simp add: example_simps)
  have 5: "\<not> interrupted (process_urls [(1, str ''https://y'')] resume_options all_succeed (BatchProcessor No_file))"
    by (simp add: eval_simps example_simps)
  have 6: "failed_count (process_urls [(1, str ''https://y'')] resume_options all_succeed (BatchProcessor No_file)) = 0"
    by (simp add: eval_simps example_simps)
  note t = resume_skips_processed_urls [OF 0, where url = "str ''https://y''" and s = ?s
      and ev = "all_fail 1" and total_urls = 1 and idx = 1 and line_num = 1 and b = processed_y
      and urls = "[(1, str ''https://y'')]" and env = all_succeed and disk = No_file
      and env' = all_fail]
  note c1 = t [THEN conjunct1, THEN mp, OF 1]
  note c2 = t [THEN conjunct2, THEN conjunct1, THEN mp, OF 2]
  note c3 = t [THEN conjunct2, THEN conjunct2, THEN conjunct1, THEN mp, OF 3]
  note c4 = t [THEN conjunct2, THEN conjunct2, THEN conjunct2, THEN mp, OF conjI [OF 4 conjI [OF 5 6]]]
  note c1a = c1 [THEN conjunct1]
  note c3a = c3 [THEN conjunct1]
  have c3b: "success_count (process_urls [(1, str ''https://y'')] resume_options all_succeed processed_y) = 1"
    using c3 [THEN conjunct2, THEN conjunct1] by simp
  note c4a = c4 [THEN conjunct1]
  show ?thesis
    by (intro conjI) (rule 0 1 2 4 5 6 c1a c2 c3a c3b c4a)+
qed

text \<open>
  Against C5 as stated: a first run in resume mode in which the only URL fails, and a
  second run over the same list, which calls the collaborator for that URL again.
\<close>

theorem second_run_retries_failed_url:
  "failed_count (process_urls one_url resume_options all_fail (BatchProcessor No_file)) = 1
   \<and> \<not> interrupted (process_urls one_url resume_options all_fail (BatchProcessor No_file))
   \<and> map call_url
        (new_calls one_url resume_options all_fail
           (BatchProcessor (resume_file
              (process_urls one_url resume_options all_fail (BatchProcessor No_file)))))
       = [str ''https://x'']"
  by (simp add: eval_simps example_simps)

subsection \<open>C6: the resume state comes back from the file\<close>

text \<open>
  C6. For every state, \<open>save_resume_data\<close> with a write that succeeds followed by
  \<open>load_resume_data\<close> yields the same processed set and the same failed map, in the same
  processor and in one built anew from the file.
\<close>

theorem resume_state_round_trip:
  "processed_urls (load_resume_data (save_resume_data Written clock b)) = processed_urls b
   \<and> failed_urls (load_resume_data (save_resume_data Written clock b)) = failed_urls b
   \<and> processed_urls (BatchProcessor (resume_file (save_resume_data Written clock b)))
       = processed_urls b
   \<and> failed_urls (BatchProcessor (resume_file (save_resume_data Written clock b)))
       = failed_urls b"
  by (simp add: load_resume_data_def save_resume_data_def BatchProcessor_def)

text \<open>The state the five URLs leave after the third.\<close>

theorem resume_state_round_trip_witness:
  "processed_urls (BatchProcessor (resume_file (save_resume_data Written (str ''t'') after_three)))
     = {|str ''https://b'', str ''https://a''|}
   \<and> map fst (failed_urls (BatchProcessor (resume_file (save_resume_data Written (str ''t'') after_three))))
     = [str ''https://c'']"
proof -
  have "processed_urls after_three = {|str ''https://b'', str ''https://a''|}"
    and "map fst (failed_urls after_three) = [str ''https://c'']"
    by (simp_all add: eval_simps example_simps)
  with resume_state_round_trip [of "str ''t''" after_three] show ?thesis
    by simp
qed

subsection \<open>C7: no valid URL\<close>

text \<open>
  C7. When the list read from the input file is empty, \<open>main\<close> ends with status 1 and the
  collaborator is not called. The command ends after the message that no valid URL was
  found, unless \<^verbatim>\<open>--clear-resume\<close> met a resume file that \<^verbatim>\<open>unlink\<close> could not delete:
  the exception then ends it before the list is read, with status 1 as well.
\<close>

theorem no_valid_urls_is_a_hard_stop:
  assumes "fst (read_urls_from_file (cli_file a)) = Inr []"
  shows "status (main cfg env unl rep a disk) = 1
         \<and> invoked (final (main cfg env unl rep a disk)) = []
         \<and> report_file (main cfg env unl rep a disk) = None
         \<and> uncaught (main cfg env unl rep a disk) =
             (if cli_clear_resume a \<and> disk \<noteq> No_file
              then (case unl of Unlinked \<Rightarrow> None | Unlink_raises e \<Rightarrow> Some e)
              else None)
         \<and> last (echoed (final (main cfg env unl rep a disk))) =
             (case uncaught (main cfg env unl rep a disk) of
                None \<Rightarrow> No_valid_urls
              | Some e \<Rightarrow> Separator)"
proof -
  obtain out where r: "read_urls_from_file (cli_file a) = (Inr [], out)"
    using assms by (cases "read_urls_from_file (cli_file a)") simp
  show ?thesis
    by (simp add: main_def r Let_def start_processor_def BatchProcessor_def load_resume_data_def
        split: resume_content.split unlink_outcome.split)
qed

text \<open>
  A file with a comment, a blank line and a line that is not a valid URL: once with no
  resume file, once with \<^verbatim>\<open>--clear-resume\<close> and a resume path that cannot be deleted.
\<close>

theorem no_valid_urls_is_a_hard_stop_witness:
  "fst (read_urls_from_file
          (cli_file (plain_cli (str ''# list'' @ [10] @ [10] @ str ''ftp://x'' @ [10])))) = Inr []
   \<and> status (main some_defaults all_succeed Unlinked Report_written
               (plain_cli (str ''# list'' @ [10] @ [10] @ str ''ftp://x'' @ [10])) No_file) = 1
   \<and> invoked (final (main some_defaults all_succeed Unlinked Report_written
               (plain_cli (str ''# list'' @ [10] @ [10] @ str ''ftp://x'' @ [10])) No_file)) = []
   \<and> uncaught (main some_defaults all_succeed Unlinked Report_written
               (plain_cli (str ''# list'' @ [10] @ [10] @ str ''ftp://x'' @ [10])) No_file) = None
   \<and> last (echoed (final (main some_defaults all_succeed Unlinked Report_written
               (plain_cli (str ''# list'' @ [10] @ [10] @ str ''ftp://x'' @ [10])) No_file)))
       = No_valid_urls
   \<and> fst (read_urls_from_file
          (cli_file (clearing_cli (str ''# list'' @ [10] @ [10] @ str ''ftp://x'' @ [10])))) = Inr []
   \<and> status (main some_defaults all_succeed (Unlink_raises (str ''Is a directory'')) Report_written
               (clearing_cli (str ''# list'' @ [10] @ [10] @ str ''ftp://x'' @ [10])) Unreadable) = 1
   \<and> invoked (final (main some_defaults all_succeed (Unlink_raises (str ''Is a directory''))
               Report_written
               (clearing_cli (str ''# list'' @ [10] @ [10] @ str ''ftp://x'' @ [10])) Unreadable)) = []
   \<and> uncaught (main some_defaults all_succeed (Unlink_raises (str ''Is a directory'')) Report_written
               (clearing_cli (str ''# list'' @ [10] @ [10] @ str ''ftp://x'' @ [10])) Unreadable)
       = Some (str ''Is a directory'')
   \<and> last (echoed (final (main some_defaults all_succeed (Unlink_raises (str ''Is a directory''))
               Report_written
               (clearing_cli (str ''# list'' @ [10] @ [10] @ str ''ftp://x'' @ [10])) Unreadable)))
       = Separator"
proof -
  let ?text = "str ''# list'' @ [10] @ [10] @ str ''ftp://x'' @ [10]"
  have h: "fst (read_urls_from_file (cli_file (plain_cli ?text))) = Inr []"
    by (simp add: plain_cli_def read_simps)
  have h': "fst (read_urls_from_file (cli_file (clearing_cli ?text))) = Inr []"
    by (simp add: clearing_cli_def plain_cli_def read_simps)
  have n: "\<not> cli_clear_resume (plain_cli ?text)"
    by (simp add: plain_cli_def)
  have c: "cli_clear_resume (clearing_cli ?text)"
    by (simp add: clearing_cli_def)
  note t = no_valid_urls_is_a_hard_stop [OF h, where cfg = some_defaults and env = all_succeed
      and unl = Unlinked and rep = Report_written and disk = No_file]
  note t' = no_valid_urls_is_a_hard_stop [OF h', where cfg = some_defaults and env = all_succeed
      and unl = "Unlink_raises (str ''Is a directory'')" and rep = Report_written
      and disk = Unreadable]
  from t have u: "uncaught (main some_defaults all_succeed Unlinked Report_written
      (plain_cli ?text) No_file) = None"
    by simp
  from t' c have u': "uncaught (main some_defaults all_succeed
      (Unlink_raises (str ''Is a directory'')) Report_written (clearing_cli ?text) Unreadable)
      = Some (str ''Is a directory'')"
    by simp
  from t u have l: "last (echoed (final (main some_defaults all_succeed Unlinked Report_written
      (plain_cli ?text) No_file))) = No_valid_urls"
    by simp
  from t' u' have l': "last (echoed (final (main some_defaults all_succeed
      (Unlink_raises (str ''Is a directory'')) Report_written (clearing_cli ?text) Unreadable)))
      = Separator"
    by simp
  show ?thesis
    by (intro conjI)
      (rule h h' u u' l l' t [THEN conjunct1] t [THEN conjunct2, THEN conjunct1]
        t' [THEN conjunct1] t' [THEN conjunct2, THEN conjunct1])+
qed

subsection \<open>C8: URL validation\<close>

text \<open>
  C8. \<open>validate_url\<close> accepts exactly the strings that start with \<^verbatim>\<open>http://\<close>,
  \<^verbatim>\<open>https://\<close> or \<^verbatim>\<open>www.\<close>: a string that starts with \<^verbatim>\<open>www.\<close> is accepted, read
  from the file as an entry and passed to the collaborator, and a string that starts with
  \<^verbatim>\<open>ftp://\<close> is rejected.
\<close>

theorem validate_url_accepts_three_prefixes:
  "validate_url s
     = (prefix (str ''http://'') s \<or> prefix (str ''https://'') s \<or> prefix (str ''www.'') s)
   \<and> validate_url (str ''www.'' @ rest)
   \<and> \<not> validate_url (str ''ftp://'' @ rest)
   \<and> fst (read_urls_from_file (Text (str ''www.example.com''))) = Inr [(1, str ''www.example.com'')]
   \<and> map call_url (new_calls [(1, str ''www.example.com'')] (opts\<lparr>resume := False\<rparr>) env b)
       = [str ''www.example.com'']"
proof (intro conjI)
  show "validate_url s
     = (prefix (str ''http://'') s \<or> prefix (str ''https://'') s \<or> prefix (str ''www.'') s)"
    by (rule validate_url_prefix)
  show "validate_url (str ''www.'' @ rest)"
    by (simp add: validate_url_prefix)
  show "\<not> validate_url (str ''ftp://'' @ rest)"
    by (simp add: validate_url_prefix str_def)
  show "fst (read_urls_from_file (Text (str ''www.example.com''))) = Inr [(1, str ''www.example.com'')]"
    by (simp add: read_urls_from_file_def file_lines_def str_def strip_def isspace_def
        startswith_def validate_url_def Let_def)
  show "map call_url (new_calls [(1, str ''www.example.com'')] (opts\<lparr>resume := False\<rparr>) env b)
       = [str ''www.example.com'']"
    using entry_grows(4) [of "opts\<lparr>resume := False\<rparr>" "env 1" 1 1 1 "str ''www.example.com''"
        "batch.extend b \<lparr>success_count = 0, failed_count = 0, interrupted = False\<rparr>"]
    by (simp add: new_calls_def process_urls_def Let_def)
qed

text \<open>An accepted and a rejected string.\<close>

theorem validate_url_accepts_three_prefixes_witness:
  "validate_url (str ''https://a'') \<and> \<not> validate_url (str ''example.com/www.'')"
  using validate_url_accepts_three_prefixes [of "str ''https://a''"]
    validate_url_accepts_three_prefixes [of "str ''example.com/www.''"]
  by (simp add: str_def)

subsection \<open>C9: a success leaves the failed map alone\<close>

text \<open>
  C9. The success branch of \<open>process_urls\<close> adds the URL to the processed set and leaves
  \<open>failed_urls\<close> as it is; no URL ever leaves the failed map during \<open>process_urls\<close>; so a
  URL that the resume file lists as failed is in the list of failed URLs that \<open>main\<close>
  echoes at the end, also when it is downloaded in this run.
\<close>

theorem success_keeps_failed_entry:
  "(\<not> (resume opts \<and> url |\<in>| processed_urls s)
      \<and> download_audio (setup_does ev) (ydl_does ev) (call_of opts url) = Returns True \<longrightarrow>
        failed_urls (process_entry opts ev total_urls idx (line_num, url) s) = failed_urls s
        \<and> processed_urls (process_entry opts ev total_urls idx (line_num, url) s)
            = finsert url (processed_urls s)
        \<and> success_count (process_entry opts ev total_urls idx (line_num, url) s)
            = success_count s + 1)
   \<and> (u \<in> fst ` set (failed_urls b) \<longrightarrow>
        u \<in> fst ` set (failed_urls (process_urls urls opts env b)))
   \<and> (u \<in> fst ` set (failed_urls (BatchProcessor disk)) \<and> \<not> cli_clear_resume a
        \<and> fst (read_urls_from_file (cli_file a)) = Inr urls \<and> urls \<noteq> [] \<longrightarrow>
        (\<exists>n. Failed_line n u \<in> set (echoed (final (main cfg env unl rep a disk)))))"
proof (intro conjI impI)
  assume "\<not> (resume opts \<and> url |\<in>| processed_urls s)
      \<and> download_audio (setup_does ev) (ydl_does ev) (call_of opts url) = Returns True"
  then have a: "\<not> (resume opts \<and> url |\<in>| processed_urls s)"
    and b: "download_audio (setup_does ev) (ydl_does ev) (call_of opts url) = Returns True"
    by blast+
  show "failed_urls (process_entry opts ev total_urls idx (line_num, url) s) = failed_urls s"
    using a b by (rule entry_success)
  show "processed_urls (process_entry opts ev total_urls idx (line_num, url) s)
            = finsert url (processed_urls s)"
    using a b by (rule entry_success)
  show "success_count (process_entry opts ev total_urls idx (line_num, url) s)
            = success_count s + 1"
    using a b by (rule entry_success)
next
  assume "u \<in> fst ` set (failed_urls b)"
  then show "u \<in> fst ` set (failed_urls (process_urls urls opts env b))"
    using loop_failed_keys_grow [of
        "batch.extend b \<lparr>success_count = 0, failed_count = 0, interrupted = False\<rparr>"
        opts env "length urls" 1 urls]
    by (auto simp add: process_urls_def)
next
  assume h: "u \<in> fst ` set (failed_urls (BatchProcessor disk)) \<and> \<not> cli_clear_resume a
        \<and> fst (read_urls_from_file (cli_file a)) = Inr urls \<and> urls \<noteq> []"
  then obtain out where r: "read_urls_from_file (cli_file a) = (Inr urls, out)"
    by (cases "read_urls_from_file (cli_file a)") simp
  from h have nc: "\<not> cli_clear_resume a" by blast
  let ?p = "snd (start_processor unl a disk)"
  have sp: "start_processor unl a disk = (None, ?p)"
    using start_processor_uncaught [of unl a disk] nc by (simp add: prod_eq_iff)
  let ?b = "announce (effective_options cfg a) urls (echo out ?p)"
  let ?r = "process_urls urls (effective_options cfg a) env ?b"
  have "u \<in> fst ` set (failed_urls ?b)"
    using h by (simp add: start_processor_fields(1) [OF nc])
  then have "u \<in> fst ` set (failed_urls ?r)"
    using loop_failed_keys_grow [of
        "batch.extend ?b \<lparr>success_count = 0, failed_count = 0, interrupted = False\<rparr>"
        "effective_options cfg a" env "length urls" 1 urls]
    by (auto simp add: process_urls_def)
  then obtain info where "(u, info) \<in> set (failed_urls ?r)"
    by auto
  then have "Failed_line (line info) u \<in> set (failed_lines (failed_urls ?r))"
    by (rule failed_line_in_lines)
  then have "Failed_line (line info) u \<in> set (echoed (summary urls ?r))"
    using summary_lists_failures [of ?r urls] by blast
  moreover from h have ne: "urls \<noteq> []" by blast
  ultimately have "Failed_line (line info) u \<in> set (echoed (final (main cfg env unl rep a disk)))"
    using save_report_echoed [of "summary urls ?r" rep "cli_report a" urls ?r]
    unfolding main_processes(1) [OF r ne sp]
    by blast
  then show "\<exists>n. Failed_line n u \<in> set (echoed (final (main cfg env unl rep a disk)))"
    by blast
qed

text \<open>
  The resume file lists a URL as failed; the run downloads it and ends with status 0,
  and the summary lists it as failed.
\<close>

theorem success_keeps_failed_entry_witness:
  "\<not> (resume plain_options \<and> str ''https://x'' |\<in>| processed_urls failed_x_run)
   \<and> download_audio (setup_does (all_succeed 1)) (ydl_does (all_succeed 1))
        (call_of plain_options (str ''https://x'')) = Returns True
   \<and> failed_urls (process_entry plain_options (all_succeed 1) 1 1 (1, str ''https://x'') failed_x_run)
       = failed_urls failed_x_run
   \<and> processed_urls (process_entry plain_options (all_succeed 1) 1 1 (1, str ''https://x'') failed_x_run)
       = finsert (str ''https://x'') (processed_urls failed_x_run)
   \<and> str ''https://x'' \<in> fst ` set (failed_urls (BatchProcessor failed_x_file))
   \<and> str ''https://x''
       \<in> fst ` set (failed_urls (process_urls one_url plain_options all_succeed
                                    (BatchProcessor failed_x_file)))
   \<and> success_count (process_urls one_url plain_options all_succeed (BatchProcessor failed_x_file)) = 1
   \<and> \<not> cli_clear_resume (plain_cli (str ''https://x''))
   \<and> fst (read_urls_from_file (cli_file (plain_cli (str ''https://x'')))) = Inr one_url
   \<and> one_url \<noteq> []
   \<and> status (main some_defaults all_succeed Unlinked Report_written (plain_cli (str ''https://x'')) failed_x_file) = 0
   \<and> (\<exists>n. Failed_line n (str ''https://x'')
            \<in> set (echoed (final (main some_defaults all_succeed Unlinked Report_written
                                     (plain_cli (str ''https://x'')) failed_x_file))))"
proof -
  have 1: "\<not> (resume plain_options \<and> str ''https://x'' |\<in>| processed_urls failed_x_run)"
    by (simp add: example_simps)
  have 2: "download_audio (setup_does (all_succeed 1)) (ydl_does (all_succeed 1))
        (call_of plain_options (str ''https://x'')) = Returns True"
    by (simp add: eval_simps example_simps)
  have 3: "str ''https://x'' \<in> fst ` set (failed_urls (BatchProcessor failed_x_file))"
    by (simp add: example_simps BatchProcessor_def load_resume_data_def)
  have 4: "\<not> cli_clear_resume (plain_cli (str ''https://x''))"
    by (simp add: example_simps)
  have r: "read_urls_from_file (cli_file (plain_cli (str ''https://x''))) = (Inr one_url, [])"
    by (simp add: example_simps read_simps)
  then have 5: "fst (read_urls_from_file (cli_file (plain_cli (str ''https://x'')))) = Inr one_url"
    by simp
  have 6: "one_url \<noteq> []"
    by (simp add: one_url_def)
  have 7: "success_count (process_urls one_url plain_options all_succeed (BatchProcessor failed_x_file)) = 1"
    by (simp add: eval_simps example_simps)
  have sp: "start_processor Unlinked (plain_cli (str ''https://x'')) failed_x_file
      = (None, snd (start_processor Unlinked (plain_cli (str ''https://x'')) failed_x_file))"
    by (simp add: start_processor_def plain_cli_def Let_def)
  have 8: "status (main some_defaults all_succeed Unlinked Report_written (plain_cli (str ''https://x'')) failed_x_file) = 0"
    unfolding main_processes(2) [OF r 6 sp]
    by (simp add: one_url_def process_urls_def process_entry_def download_audio_def download_def
        all_succeed_def effective_options_def plain_cli_def Let_def)
  note t = success_keeps_failed_entry [where opts = plain_options and url = "str ''https://x''"
      and s = failed_x_run and ev = "all_succeed 1" and total_urls = 1 and idx = 1 and line_num = 1
      and u = "str ''https://x''" and b = "BatchProcessor failed_x_file" and urls = one_url
      and env = all_succeed and disk = failed_x_file and a = "plain_cli (str ''https://x'')"
      and cfg = some_defaults and rep = Report_written and unl = Unlinked]
  note c1 = t [THEN conjunct1, THEN mp, OF conjI [OF 1 2]]
  note c2 = t [THEN conjunct2, THEN conjunct1, THEN mp, OF 3]
  note c3 = t [THEN conjunct2, THEN conjunct2, THEN mp, OF conjI [OF 3 conjI [OF 4 conjI [OF 5 6]]]]
  note c1a = c1 [THEN conjunct1]
  note c1b = c1 [THEN conjunct2, THEN conjunct1]
  show ?thesis
    by (intro conjI) (rule 1 2 3 4 5 6 7 8 c1a c1b c2 c3)+
qed

subsection \<open>C10: an interrupt inside the collaborator\<close>

text \<open>
  C10, as amended. When the interrupt signal arrives inside the \<^verbatim>\<open>try\<close> of the
  collaborator, while yt-dlp fetches the information or downloads, the collaborator
  catches it and returns failure: the loop records the URL as failed with the text
  \<^verbatim>\<open>Download failed\<close>, increments \<open>failed_count\<close>, is not interrupted and goes on with the
  next entry.
\<close>

theorem interrupted_download_is_a_failure:
  assumes "\<not> interrupted s"
    and "\<not> (resume opts \<and> url |\<in>| processed_urls s)"
    and "setup_does (env idx) = Setup_ok"
    and "ydl_does (env idx) = Ydl_interrupted"
  shows "let s' = process_entry opts (env idx) total_urls idx (line_num, url) s in
           download_audio (setup_does (env idx)) (ydl_does (env idx)) (call_of opts url)
             = Returns False
           \<and> map_of (failed_urls s') url =
               Some \<lparr>line = line_num, error = str ''Download failed'', timestamp = now (env idx)\<rparr>
           \<and> failed_count s' = failed_count s + 1
           \<and> success_count s' = success_count s
           \<and> processed_urls s' = processed_urls s
           \<and> \<not> interrupted s'
           \<and> process_loop opts env total_urls idx ((line_num, url) # rest) s
               = process_loop opts env total_urls (Suc idx) rest s'"
proof -
  let ?s' = "process_entry opts (env idx) total_urls idx (line_num, url) s"
  have d: "download_audio (setup_does (env idx)) (ydl_does (env idx)) (call_of opts url)
             = Returns False"
    using assms(3,4) by (simp add: download_audio_def download_def)
  note e = entry_false [OF assms(2) d, of total_urls idx line_num]
  have l: "process_loop opts env total_urls idx ((line_num, url) # rest) s
             = process_loop opts env total_urls (Suc idx) rest ?s'"
    using e(6) assms(1) by (simp add: Let_def)
  show ?thesis
    unfolding Let_def l
    using e d assms(1) by simp
qed

text \<open>Two URLs, the signal inside each call: both calls are made and both URLs fail.\<close>

theorem interrupted_download_is_a_failure_witness:
  "\<not> interrupted fresh_run
   \<and> \<not> (resume plain_options \<and> str ''https://x'' |\<in>| processed_urls fresh_run)
   \<and> setup_does (interrupt_inside 1) = Setup_ok
   \<and> ydl_does (interrupt_inside 1) = Ydl_interrupted
   \<and> map call_url (invoked (process_urls [(1, str ''https://x''), (2, str ''https://y'')]
                              plain_options interrupt_inside (BatchProcessor No_file)))
       = [str ''https://x'', str ''https://y'']
   \<and> failed_count (process_urls [(1, str ''https://x''), (2, str ''https://y'')]
                      plain_options interrupt_inside (BatchProcessor No_file)) = 2
   \<and> (let s' = process_entry plain_options (interrupt_inside 1) 2 1 (1, str ''https://x'') fresh_run in
           download_audio (setup_does (interrupt_inside 1)) (ydl_does (interrupt_inside 1))
               (call_of plain_options (str ''https://x''))
             = Returns False
           \<and> map_of (failed_urls s') (str ''https://x'') =
               Some \<lparr>line = 1, error = str ''Download failed'', timestamp = now (interrupt_inside 1)\<rparr>
           \<and> failed_count s' = failed_count fresh_run + 1
           \<and> success_count s' = success_count fresh_run
           \<and> processed_urls s' = processed_urls fresh_run
           \<and> \<not> interrupted s'
           \<and> process_loop plain_options interrupt_inside 2 1
                 ((1, str ''https://x'') # [(2, str ''https://y'')]) fresh_run
               = process_loop plain_options interrupt_inside 2 (Suc 1) [(2, str ''https://y'')] s')"
proof -
  have 1: "\<not> interrupted fresh_run"
    by (simp add: eval_simps example_simps)
  have 2: "\<not> (resume plain_options \<and> str ''https://x'' |\<in>| processed_urls fresh_run)"
    by (simp add: eval_simps example_simps)
  have 3: "setup_does (interrupt_inside 1) = Setup_ok"
    by (simp add: example_simps)
  have 4: "ydl_does (interrupt_inside 1) = Ydl_interrupted"
    by (simp add: example_simps)
  have 5: "map call_url (invoked (process_urls [(1, str ''https://x''), (2, str ''https://y'')]
                              plain_options interrupt_inside (BatchProcessor No_file)))
       = [str ''https://x'', str ''https://y'']"
    by (simp add: eval_simps example_simps)
  have 6: "failed_count (process_urls [(1, str ''https://x''), (2, str ''https://y'')]
                      plain_options interrupt_inside (BatchProcessor No_file)) = 2"
    by (simp add: eval_simps example_simps)
  from interrupted_download_is_a_failure [where env = interrupt_inside and idx = 1
      and total_urls = 2 and line_num = 1 and rest = "[(2, str ''https://y'')]", OF 1 2 3 4]
    1 2 3 4 5 6
  show ?thesis by blast
qed

text \<open>
  Against C10 as stated: the signal arrives inside the collaborator's call before its
  \<^verbatim>\<open>try\<close>, while the output directory is created and the options are built. The
  interrupt comes out of the call, the loop ends, no failure is recorded and the second
  URL is never reached.
\<close>

theorem interrupt_before_try_aborts_loop:
  "download_audio (setup_does (interrupt_in_setup 1)) (ydl_does (interrupt_in_setup 1))
     (call_of plain_options (str ''https://x'')) = Raises_KeyboardInterrupt
   \<and> interrupted (process_urls [(1, str ''https://x''), (2, str ''https://y'')]
                    plain_options interrupt_in_setup (BatchProcessor No_file))
   \<and> failed_urls (process_urls [(1, str ''https://x''), (2, str ''https://y'')]
                    plain_options interrupt_in_setup (BatchProcessor No_file)) = []
   \<and> failed_count (process_urls [(1, str ''https://x''), (2, str ''https://y'')]
                    plain_options interrupt_in_setup (BatchProcessor No_file)) = 0
   \<and> map call_url (invoked (process_urls [(1, str ''https://x''), (2, str ''https://y'')]
                    plain_options interrupt_in_setup (BatchProcessor No_file)))
       = [str ''https://x'']"
  by (simp add: eval_simps example_simps)

end
